theory Spec2Isabelle
  imports Main "HOL-Library.Multiset"
begin

section \<open>StudyTracker: task repository and statistics engine\<close>

text \<open>
  A shallow embedding of \<^verbatim>\<open>src/taskManager.js\<close> together with the parts of
  \<^verbatim>\<open>src/storage.js\<close> and of \<^verbatim>\<open>Utils\<close> (in \<^verbatim>\<open>src/ui.js\<close>) that it calls.

  Dates and times. Every date the program handles is produced by
  \<^verbatim>\<open>new Date().toISOString()\<close>: a timestamp is the string
  \<^verbatim>\<open>YYYY-MM-DDTHH:mm:ss.sssZ\<close> and a date is its first ten characters. The model
  represents a timestamp by the number of milliseconds since the epoch that it denotes and
  a date by its day number (days since 1970-01-01, UTC). Then
  \<^verbatim>\<open>ts.startsWith(dateStr)\<close> is equality of the timestamp's day with the date,
  \<^verbatim>\<open>new Date(d1) - new Date(d2)\<close> on two dates is their distance in days times
  86400000. \<^verbatim>\<open>getStreak\<close> steps a \<^verbatim>\<open>Date\<close> back on the local clock; the time zone is a
  parameter there. A field that is \<^verbatim>\<open>null\<close>, undefined or the empty string where a
  date is expected is \<open>None\<close>.
\<close>

subsection \<open>Values\<close>

type_synonym day = int
type_synonym instant = int

definition date_of :: "instant \<Rightarrow> day" where
  "date_of ts = ts div 86400000"

text \<open>
  The clock and the random source as one operation reads them: one reading of the clock,
  which every \<^verbatim>\<open>new Date()\<close> and \<^verbatim>\<open>Date.now()\<close> of the operation returns, and a
  sequence of random strings.
\<close>

record env =
  now :: instant
  rnd :: "nat \<Rightarrow> string"

definition getTodayString :: "env \<Rightarrow> day" where
  "getTodayString e = date_of (now e)"

text \<open>
  An optional string field: \<open>None\<close> is \<^verbatim>\<open>null\<close> or undefined. JavaScript reads
  \<open>None\<close> and the empty string as false.
\<close>

definition truthy :: "string option \<Rightarrow> bool" where
  "truthy v = (case v of None \<Rightarrow> False | Some s \<Rightarrow> s \<noteq> [])"

definition or_else :: "string option \<Rightarrow> string \<Rightarrow> string" where
  "or_else v d = (case v of None \<Rightarrow> d | Some s \<Rightarrow> if s = [] then d else s)"

text \<open>
  \<^verbatim>\<open>trim\<close> and \<^verbatim>\<open>toLowerCase\<close> on the characters of ASCII; other bytes are left
  as they are.
\<close>

definition is_space :: "char \<Rightarrow> bool" where
  "is_space c = (c \<in> set [CHR 0x20, CHR 0x09, CHR 0x0A, CHR 0x0B, CHR 0x0C, CHR 0x0D])"

definition trim :: "string \<Rightarrow> string" where
  "trim s = rev (dropWhile is_space (rev (dropWhile is_space s)))"

fun dec_nat :: "nat \<Rightarrow> string" where
  "dec_nat n =
     (if n < 10 then [char_of (48 + n)]
      else dec_nat (n div 10) @ [char_of (48 + n mod 10)])"

declare dec_nat.simps [simp del]

definition String_of_int :: "int \<Rightarrow> string" where
  "String_of_int n = (if n < 0 then CHR ''-'' # dec_nat (nat (- n)) else dec_nat (nat n))"

text \<open>
  \<^verbatim>\<open>Utils.generateId\<close>: \<^verbatim>\<open>`${Date.now()}-${Math.random().toString(36).substr(2, 9)}`\<close>.
  The argument \<open>k\<close> selects which draw of the random source is used.
\<close>

definition generateId :: "env \<Rightarrow> nat \<Rightarrow> string" where
  "generateId e k = String_of_int (now e) @ ''-'' @ rnd e k"

subsection \<open>Tasks\<close>

text \<open>
  The \<^verbatim>\<open>id\<close> of a stored record is absent (or \<^verbatim>\<open>null\<close>), a number (legacy data,
  an integer as \<^verbatim>\<open>Date.now()\<close> gives) or a string; the migration pass tells the three
  apart. The other fields hold what the data model gives them: a string, a date, a
  timestamp, or nothing. \<^verbatim>\<open>title\<close> is always a string: \<^verbatim>\<open>create\<close>, the search
  filter and the alphabetical sort call string methods on it without a test.
\<close>

datatype idval = NoId | NumId int | StrId string

definition truthy_id :: "idval \<Rightarrow> bool" where
  "truthy_id v = (case v of NoId \<Rightarrow> False | NumId n \<Rightarrow> n \<noteq> 0 | StrId s \<Rightarrow> s \<noteq> [])"

definition is_number :: "idval \<Rightarrow> bool" where
  "is_number v = (case v of NumId n \<Rightarrow> True | _ \<Rightarrow> False)"

definition String_of_id :: "idval \<Rightarrow> string" where
  "String_of_id v =
     (case v of NoId \<Rightarrow> ''undefined'' | NumId n \<Rightarrow> String_of_int n | StrId s \<Rightarrow> s)"

record task =
  tid :: idval
  title :: string
  description :: "string option"
  category :: "string option"
  priority :: "string option"
  deadline :: "day option"
  status :: "string option"
  createdAt :: "instant option"
  completedAt :: "instant option"

text \<open>The argument of \<^verbatim>\<open>create\<close> (the form's fields).\<close>

record taskData =
  d_title :: string
  d_description :: "string option"
  d_category :: "string option"
  d_priority :: "string option"
  d_deadline :: "day option"

text \<open>
  The argument \<^verbatim>\<open>updates\<close> of \<^verbatim>\<open>update\<close>: an object with any subset of a task's
  keys. \<open>None\<close> is a key that is not there; \<open>Some v\<close> is a key with the value \<open>v\<close>.
\<close>

record patch =
  p_id :: "idval option"
  p_title :: "string option"
  p_description :: "string option option"
  p_category :: "string option option"
  p_priority :: "string option option"
  p_deadline :: "day option option"
  p_status :: "string option option"
  p_createdAt :: "instant option option"
  p_completedAt :: "instant option option"

definition over :: "'a \<Rightarrow> 'a option \<Rightarrow> 'a" where
  "over old new = (case new of None \<Rightarrow> old | Some v \<Rightarrow> v)"

text \<open>The object spread \<^verbatim>\<open>{ ...task, ...updates }\<close>.\<close>

definition spread :: "task \<Rightarrow> patch \<Rightarrow> task" where
  "spread t u =
     \<lparr> tid = over (tid t) (p_id u),
       title = over (title t) (p_title u),
       description = over (description t) (p_description u),
       category = over (category t) (p_category u),
       priority = over (priority t) (p_priority u),
       deadline = over (deadline t) (p_deadline u),
       status = over (status t) (p_status u),
       createdAt = over (createdAt t) (p_createdAt u),
       completedAt = over (completedAt t) (p_completedAt u) \<rparr>"

subsection \<open>The Rolling Stats Record (storage.js)\<close>

record daily =
  completed_day :: int
  created_day :: int

record stats =
  totalTasksCreated :: int
  totalTasksCompleted :: int
  currentStreak :: int
  longestStreak :: int
  lastActiveDate :: "day option"
  dailyStats :: "day \<Rightarrow> daily option"

definition default_stats :: stats where
  "default_stats =
     \<lparr> totalTasksCreated = 0, totalTasksCompleted = 0, currentStreak = 0,
       longestStreak = 0, lastActiveDate = None, dailyStats = (\<lambda>d. None) \<rparr>"

text \<open>
  The body of \<^verbatim>\<open>TaskManager.updateStats\<close> (lines 470 to 503) between
  \<^verbatim>\<open>Storage.getStats()\<close> and \<^verbatim>\<open>Storage.saveStats(stats)\<close>, statement by statement:
  the counter of the action, the streak, the running maximum, the date.
\<close>

definition bump_counter :: "string \<Rightarrow> stats \<Rightarrow> stats" where
  "bump_counter action s =
     (if action = ''created'' then s\<lparr>totalTasksCreated := totalTasksCreated s + 1\<rparr>
      else if action = ''completed'' then s\<lparr>totalTasksCompleted := totalTasksCompleted s + 1\<rparr>
      else s)"

definition bump_streak :: "day \<Rightarrow> stats \<Rightarrow> stats" where
  "bump_streak today s =
     (case lastActiveDate s of
        Some lastActive \<Rightarrow>
          (let diffDays = today - lastActive in
           if diffDays = 1 then s\<lparr>currentStreak := currentStreak s + 1\<rparr>
           else if diffDays > 1 then s\<lparr>currentStreak := 1\<rparr>
           else s)
      | None \<Rightarrow> s\<lparr>currentStreak := 1\<rparr>)"

definition bump_longest :: "stats \<Rightarrow> stats" where
  "bump_longest s =
     (if currentStreak s > longestStreak s then s\<lparr>longestStreak := currentStreak s\<rparr> else s)"

definition updateStats_record :: "string \<Rightarrow> day \<Rightarrow> stats \<Rightarrow> stats" where
  "updateStats_record action today s =
     (bump_longest (bump_streak today (bump_counter action s)))\<lparr>lastActiveDate := Some today\<rparr>"

subsection \<open>The repository state\<close>

text \<open>
  JavaScript arrays are objects: \<^verbatim>\<open>push\<close>, an indexed assignment and \<^verbatim>\<open>sort\<close>
  change the array in place and are seen through every reference to it, while
  \<^verbatim>\<open>[...xs]\<close>, \<^verbatim>\<open>filter\<close> and \<^verbatim>\<open>map\<close> build a new array. The model keeps a store of
  arrays indexed by reference; \<open>tasks\<close> is the reference held by
  \<^verbatim>\<open>TaskManager.tasks\<close>. The two keys of \<^verbatim>\<open>localStorage\<close> the repository
  uses are part of the state (\<open>stored_stats = None\<close>: the key is not there). Writes to
  \<^verbatim>\<open>localStorage\<close> are taken to succeed.
\<close>

record filter_state =
  status_f :: string
  category_f :: string
  search :: string
  sortBy :: string

record world =
  arrays :: "nat \<Rightarrow> task list"
  next_ref :: nat
  tasks :: nat
  filters :: filter_state
  stored_tasks :: "task list"
  stored_stats :: "stats option"

definition collection :: "world \<Rightarrow> task list" where
  "collection w = arrays w (tasks w)"

definition alloc :: "task list \<Rightarrow> world \<Rightarrow> nat \<times> world" where
  "alloc xs w =
     (next_ref w, w\<lparr>arrays := (arrays w)(next_ref w := xs), next_ref := Suc (next_ref w)\<rparr>)"

definition set_array :: "nat \<Rightarrow> task list \<Rightarrow> world \<Rightarrow> world" where
  "set_array r xs w = w\<lparr>arrays := (arrays w)(r := xs)\<rparr>"

definition default_filters :: filter_state where
  "default_filters =
     \<lparr> status_f = ''all'', category_f = ''all'', search = [], sortBy = ''newest'' \<rparr>"

text \<open>The module as it is when the script has been loaded, on an empty \<^verbatim>\<open>localStorage\<close>.\<close>

definition initial_world :: world where
  "initial_world =
     \<lparr> arrays = (\<lambda>r. []), next_ref = 1, tasks = 0, filters = default_filters,
       stored_tasks = [], stored_stats = None \<rparr>"

subsection \<open>Storage\<close>

text \<open>\<^verbatim>\<open>Storage.getStats\<close> and \<^verbatim>\<open>Storage.saveStats\<close> (storage.js).\<close>

definition getStats_stored :: "world \<Rightarrow> stats" where
  "getStats_stored w = (case stored_stats w of None \<Rightarrow> default_stats | Some s \<Rightarrow> s)"

definition saveStats :: "stats \<Rightarrow> world \<Rightarrow> world" where
  "saveStats s w = w\<lparr>stored_stats := Some s\<rparr>"

text \<open>\<^verbatim>\<open>TaskManager.save\<close>, that is \<^verbatim>\<open>Storage.saveTasks(this.tasks)\<close>.\<close>

definition save :: "world \<Rightarrow> world" where
  "save w = w\<lparr>stored_tasks := collection w\<rparr>"

text \<open>
  The test \<^verbatim>\<open>t.status === 'completed' && t.completedAt && t.completedAt.startsWith(date)\<close>
  of \<^verbatim>\<open>getCompletedCountByDate\<close>, \<^verbatim>\<open>getWeeklyData\<close>, \<^verbatim>\<open>getDailyActivity\<close> and
  \<^verbatim>\<open>getStreak\<close>.
\<close>

definition completed_on :: "day \<Rightarrow> task \<Rightarrow> bool" where
  "completed_on d t =
     (status t = Some ''completed'' \<and>
      (case completedAt t of None \<Rightarrow> False | Some c \<Rightarrow> date_of c = d))"

definition getCompletedCountByDate :: "day \<Rightarrow> world \<Rightarrow> int" where
  "getCompletedCountByDate d w = int (length (filter (completed_on d) (stored_tasks w)))"

text \<open>\<^verbatim>\<open>Storage.updateDailyStats(date, data)\<close>; \<open>data\<close> has the keys that are \<open>Some\<close>.\<close>

definition updateDailyStats :: "day \<Rightarrow> int option \<Rightarrow> int option \<Rightarrow> world \<Rightarrow> world" where
  "updateDailyStats d data_completed data_created w =
     (let s = getStats_stored w;
          entry = (case dailyStats s d of
                     None \<Rightarrow> \<lparr> completed_day = 0, created_day = 0 \<rparr>
                   | Some x \<Rightarrow> x);
          entry' = \<lparr> completed_day = over (completed_day entry) data_completed,
                     created_day = over (created_day entry) data_created \<rparr>
      in saveStats (s\<lparr>dailyStats := (dailyStats s)(d := Some entry')\<rparr>) w)"

text \<open>\<^verbatim>\<open>TaskManager.updateStats\<close> (lines 470 to 503) on the stored record.\<close>

definition updateStats :: "env \<Rightarrow> string \<Rightarrow> world \<Rightarrow> world" where
  "updateStats e action w =
     saveStats (updateStats_record action (getTodayString e) (getStats_stored w)) w"

subsection \<open>Loading and migration\<close>

text \<open>\<^verbatim>\<open>TaskManager.migrateOldData\<close> (taskManager.js, lines 30 to 44): the test of \<^verbatim>\<open>some\<close>, the function of \<^verbatim>\<open>map\<close>, and the method.\<close>

definition needs_migration :: "task \<Rightarrow> bool" where
  "needs_migration t = (\<not> truthy_id (tid t) \<or> is_number (tid t))"

definition migrate_task :: "env \<Rightarrow> nat \<Rightarrow> task \<Rightarrow> task" where
  "migrate_task e k t =
     t\<lparr> tid := StrId (if truthy_id (tid t) then String_of_id (tid t) else generateId e k),
        priority := Some (or_else (priority t) ''medium''),
        createdAt := Some (case createdAt t of Some c \<Rightarrow> c | None \<Rightarrow> now e) \<rparr>"

definition migrateOldData :: "env \<Rightarrow> world \<Rightarrow> world" where
  "migrateOldData e w =
     (if list_ex needs_migration (collection w) then
        (let (r, w1) = alloc (map (\<lambda>(k, t). migrate_task e k t) (enumerate 0 (collection w))) w
         in save (w1\<lparr>tasks := r\<rparr>))
      else w)"

text \<open>\<^verbatim>\<open>TaskManager.init\<close> (lines 21 to 25).\<close>

definition init :: "env \<Rightarrow> world \<Rightarrow> world" where
  "init e w = (let (r, w1) = alloc (stored_tasks w) w in migrateOldData e (w1\<lparr>tasks := r\<rparr>))"

subsection \<open>Create, update, delete\<close>

text \<open>\<^verbatim>\<open>TaskManager.create\<close> (lines 51 to 71): the object literal, and the method.\<close>

definition new_task :: "env \<Rightarrow> taskData \<Rightarrow> task" where
  "new_task e taskData =
     \<lparr> tid = StrId (generateId e 0),
       title = trim (d_title taskData),
       description = Some (trim (or_else (d_description taskData) [])),
       category = Some (or_else (d_category taskData) ''study''),
       priority = Some (or_else (d_priority taskData) ''medium''),
       deadline = d_deadline taskData,
       status = Some ''pending'',
       createdAt = Some (now e),
       completedAt = None \<rparr>"

definition create :: "env \<Rightarrow> taskData \<Rightarrow> world \<Rightarrow> task \<times> world" where
  "create e taskData w =
     (let t = new_task e taskData;
          w1 = set_array (tasks w) (collection w @ [t]) w;
          w2 = save w1;
          w3 = updateStats e ''created'' w2
      in (t, w3))"

fun findIndex :: "('a \<Rightarrow> bool) \<Rightarrow> 'a list \<Rightarrow> nat option" where
  "findIndex P [] = None"
| "findIndex P (x # xs) =
     (if P x then Some 0 else (case findIndex P xs of None \<Rightarrow> None | Some i \<Rightarrow> Some (Suc i)))"

text \<open>
  \<^verbatim>\<open>TaskManager.update\<close> (lines 79 to 107). It assigns to
  \<^verbatim>\<open>updates.completedAt\<close>, so it changes the caller's object: the patch as \<^verbatim>\<open>update\<close>
  leaves it is part of the result.
\<close>

definition update :: "env \<Rightarrow> string \<Rightarrow> patch \<Rightarrow> world \<Rightarrow> task option \<times> patch \<times> world" where
  "update e i updates w =
     (case findIndex (\<lambda>t. tid t = StrId i) (collection w) of
        None \<Rightarrow> (None, updates, w)
      | Some index \<Rightarrow>
          (let oldStatus = status (collection w ! index);
               newStatus = p_status updates;
               (u1, w1) =
                 (if newStatus = Some (Some ''completed'') \<and> oldStatus \<noteq> Some ''completed''
                  then
                    (let w' = updateStats e ''completed'' w;
                         today = getTodayString e
                     in (updates\<lparr>p_completedAt := Some (Some (now e))\<rparr>,
                         updateDailyStats today
                           (Some (getCompletedCountByDate today w' + 1)) None w'))
                  else (updates, w));
               u2 =
                 (if oldStatus = Some ''completed'' \<and> newStatus \<noteq> Some (Some ''completed'')
                  then u1\<lparr>p_completedAt := Some None\<rparr>
                  else u1);
               t' = spread (collection w1 ! index) u2;
               w2 = set_array (tasks w1) ((collection w1)[index := t']) w1
           in (Some t', u2, save w2)))"

text \<open>\<^verbatim>\<open>TaskManager.delete\<close> (lines 114 to 123) and \<^verbatim>\<open>clearCompleted\<close> (lines 424 to 429).\<close>

definition delete :: "string \<Rightarrow> world \<Rightarrow> bool \<times> world" where
  "delete i w =
     (let initialLength = length (collection w);
          (r, w1) = alloc (filter (\<lambda>t. tid t \<noteq> StrId i) (collection w)) w;
          w2 = w1\<lparr>tasks := r\<rparr>
      in if length (collection w2) < initialLength then (True, save w2) else (False, w2))"

definition clearCompleted :: "world \<Rightarrow> nat \<times> world" where
  "clearCompleted w =
     (let completedCount = length (filter (\<lambda>t. status t = Some ''completed'') (collection w));
          (r, w1) = alloc (filter (\<lambda>t. status t \<noteq> Some ''completed'') (collection w)) w
      in (completedCount, save (w1\<lparr>tasks := r\<rparr>)))"

text \<open>\<^verbatim>\<open>TaskManager.bulkUpdate\<close> (lines 437 to 443), whose \<^verbatim>\<open>forEach\<close> hands the same object \<^verbatim>\<open>updates\<close> to every call of \<^verbatim>\<open>update\<close>, and \<^verbatim>\<open>bulkDelete\<close> (lines 450 to 457).\<close>

fun bulkUpdate_loop :: "env \<Rightarrow> string list \<Rightarrow> patch \<Rightarrow> nat \<Rightarrow> world \<Rightarrow> nat \<times> patch \<times> world" where
  "bulkUpdate_loop e [] updates cnt w = (cnt, updates, w)"
| "bulkUpdate_loop e (i # ids) updates cnt w =
     (case update e i updates w of
        (None, u', w') \<Rightarrow> bulkUpdate_loop e ids u' cnt w'
      | (Some t, u', w') \<Rightarrow> bulkUpdate_loop e ids u' (cnt + 1) w')"

definition bulkUpdate :: "env \<Rightarrow> string list \<Rightarrow> patch \<Rightarrow> world \<Rightarrow> nat \<times> patch \<times> world" where
  "bulkUpdate e ids updates w = bulkUpdate_loop e ids updates 0 w"

definition bulkDelete :: "string list \<Rightarrow> world \<Rightarrow> nat \<times> world" where
  "bulkDelete ids w =
     (let initialLength = length (collection w);
          (r, w1) = alloc (filter (\<lambda>t. tid t \<notin> set (map StrId ids)) (collection w)) w;
          w2 = w1\<lparr>tasks := r\<rparr>;
          w3 = (if length (collection w2) < initialLength then save w2 else w2)
      in (initialLength - length (collection w3), w3))"


subsection \<open>Import\<close>

text \<open>
  The argument \<^verbatim>\<open>data\<close> of \<^verbatim>\<open>import\<close>. \<open>NoObject\<close> is \<^verbatim>\<open>null\<close> or undefined, where
  reading \<^verbatim>\<open>data.tasks\<close> raises a \<^verbatim>\<open>TypeError\<close>. Any other value is \<open>Object v\<close> with
  \<open>v\<close> what \<^verbatim>\<open>data.tasks\<close> gives: nothing (or another value that JavaScript reads as false;
  so it is for a number, a string or a boolean), a value that is not an array, or an
  array. An element of the array is \<open>None\<close> when it is \<^verbatim>\<open>null\<close> or undefined, where
  reading \<^verbatim>\<open>t.createdAt\<close> raises a \<^verbatim>\<open>TypeError\<close>, and otherwise the record of the fields
  that the spread \<^verbatim>\<open>...t\<close> and \<^verbatim>\<open>t.createdAt\<close> read from it. The array has no holes, as
  every array that \<^verbatim>\<open>JSON.parse\<close> returns.
\<close>

datatype tasks_field = Missing | NonArray | TaskArray "task option list"

datatype payload = NoObject | Object tasks_field

datatype error = Error string | TypeError

definition truthy_field :: "tasks_field \<Rightarrow> bool" where
  "truthy_field v = (case v of Missing \<Rightarrow> False | _ \<Rightarrow> True)"

definition isArray :: "tasks_field \<Rightarrow> bool" where
  "isArray v = (case v of TaskArray xs \<Rightarrow> True | _ \<Rightarrow> False)"

definition elements :: "tasks_field \<Rightarrow> task option list" where
  "elements v = (case v of TaskArray xs \<Rightarrow> xs | _ \<Rightarrow> [])"

text \<open>
  The callback of \<^verbatim>\<open>data.tasks.map\<close> on an object: the spread of \<^verbatim>\<open>t\<close>, then the two
  keys that overwrite it. \<open>k\<close> is the position of the element, which is the number of
  calls of \<^verbatim>\<open>Utils.generateId\<close> made before this one.
\<close>

definition import_task :: "env \<Rightarrow> nat \<Rightarrow> task \<Rightarrow> task" where
  "import_task e k t =
     t\<lparr> tid := StrId (generateId e k),
        createdAt := Some (case createdAt t of Some c \<Rightarrow> c | None \<Rightarrow> now e) \<rparr>"

text \<open>\<^verbatim>\<open>data.tasks.map(...)\<close>, from position \<open>k\<close> on: the first exception ends it.\<close>

fun map_import :: "env \<Rightarrow> nat \<Rightarrow> task option list \<Rightarrow> error + task list" where
  "map_import e k [] = Inr []"
| "map_import e k (None # xs) = Inl TypeError"
| "map_import e k (Some t # xs) =
     (case map_import e (k + 1) xs of
        Inl err \<Rightarrow> Inl err
      | Inr ts \<Rightarrow> Inr (import_task e k t # ts))"

text \<open>
  \<^verbatim>\<open>TaskManager.import\<close> (lines 522 to 536). Every exception is raised before the
  assignment to \<^verbatim>\<open>this.tasks\<close> and leaves the state as it was.
\<close>

definition import_tasks :: "env \<Rightarrow> payload \<Rightarrow> world \<Rightarrow> (error + nat) \<times> world" where
  "import_tasks e data w =
     (case data of
        NoObject \<Rightarrow> (Inl TypeError, w)
      | Object data_tasks \<Rightarrow>
          if \<not> truthy_field data_tasks \<or> \<not> isArray data_tasks
          then (Inl (Error ''Invalid task data''), w)
          else
            (case map_import e 0 (elements data_tasks) of
               Inl err \<Rightarrow> (Inl err, w)
             | Inr newTasks \<Rightarrow>
                 (let (r, w1) = alloc (collection w @ newTasks) w
                  in (Inr (length newTasks), save (w1\<lparr>tasks := r\<rparr>)))))"

text \<open>The tasks of a payload that \<^verbatim>\<open>import\<close> accepts; none for any other payload.\<close>

definition payload_tasks :: "payload \<Rightarrow> task list" where
  "payload_tasks data =
     (case data of
        Object (TaskArray xs) \<Rightarrow> if list_all (\<lambda>x. x \<noteq> None) xs then map the xs else []
      | _ \<Rightarrow> [])"

subsection \<open>Sequences of operations\<close>

datatype op =
    Create env taskData
  | Update env string patch
  | Delete string
  | ClearCompleted
  | BulkUpdate env "string list" patch
  | BulkDelete "string list"
  | Import env payload

fun step :: "op \<Rightarrow> world \<Rightarrow> world" where
  "step (Create e taskData) w = snd (create e taskData w)"
| "step (Update e i updates) w = snd (snd (update e i updates w))"
| "step (Delete i) w = snd (delete i w)"
| "step ClearCompleted w = snd (clearCompleted w)"
| "step (BulkUpdate e ids updates) w = snd (snd (bulkUpdate e ids updates w))"
| "step (BulkDelete ids) w = snd (bulkDelete ids w)"
| "step (Import e data) w = snd (import_tasks e data w)"

fun run :: "op list \<Rightarrow> world \<Rightarrow> world" where
  "run [] w = w"
| "run (x # xs) w = run xs (step x w)"

subsection \<open>Sorting and filtering\<close>

text \<open>
  \<^verbatim>\<open>Array.prototype.sort\<close> and \<^verbatim>\<open>String.prototype.localeCompare\<close> belong to the
  JavaScript engine, not to the repository; they are parameters of the model. A comparator
  returns a number, and \<^verbatim>\<open>sort\<close> reads \<^verbatim>\<open>NaN\<close> as 0: where the source's comparator
  yields \<^verbatim>\<open>NaN\<close> (a date or a priority rank that is not there), the model's yields 0.
\<close>

record engine =
  sort_impl :: "(task \<Rightarrow> task \<Rightarrow> int) \<Rightarrow> task list \<Rightarrow> task list"
  localeCompare :: "string \<Rightarrow> string \<Rightarrow> int"

text \<open>The four comparators of \<^verbatim>\<open>TaskManager.sortTasks\<close> (lines 180 to 210).\<close>

definition cmp_newest :: "task \<Rightarrow> task \<Rightarrow> int" where
  "cmp_newest a b =
     (case (createdAt b, createdAt a) of (Some x, Some y) \<Rightarrow> x - y | _ \<Rightarrow> 0)"

definition cmp_deadline :: "task \<Rightarrow> task \<Rightarrow> int" where
  "cmp_deadline a b =
     (case deadline a of
        None \<Rightarrow> 1
      | Some da \<Rightarrow> (case deadline b of None \<Rightarrow> - 1 | Some db \<Rightarrow> (da - db) * 86400000))"

definition priorityOrder :: "string option \<Rightarrow> int option" where
  "priorityOrder p =
     (if p = Some ''high'' then Some 0
      else if p = Some ''medium'' then Some 1
      else if p = Some ''low'' then Some 2
      else None)"

definition cmp_priority :: "task \<Rightarrow> task \<Rightarrow> int" where
  "cmp_priority a b =
     (case (priorityOrder (priority a), priorityOrder (priority b)) of
        (Some x, Some y) \<Rightarrow> x - y
      | _ \<Rightarrow> 0)"

definition cmp_alphabetical :: "engine \<Rightarrow> task \<Rightarrow> task \<Rightarrow> int" where
  "cmp_alphabetical eng a b = localeCompare eng (title a) (title b)"

text \<open>\<^verbatim>\<open>sorted.sort(cmp)\<close>: the array at \<open>r\<close> is sorted in place.\<close>

definition sort_at :: "engine \<Rightarrow> (task \<Rightarrow> task \<Rightarrow> int) \<Rightarrow> nat \<Rightarrow> world \<Rightarrow> world" where
  "sort_at eng cmp r w = set_array r (sort_impl eng cmp (arrays w r)) w"

text \<open>\<^verbatim>\<open>sortTasks\<close>: the copy \<^verbatim>\<open>[...tasks]\<close>, then the \<^verbatim>\<open>switch\<close>.\<close>

definition sortTasks :: "engine \<Rightarrow> nat \<Rightarrow> string \<Rightarrow> world \<Rightarrow> nat \<times> world" where
  "sortTasks eng tasks_ref sort_by w =
     (let (sorted, w1) = alloc (arrays w tasks_ref) w in
      if sort_by = ''newest'' then (sorted, sort_at eng cmp_newest sorted w1)
      else if sort_by = ''deadline'' then (sorted, sort_at eng cmp_deadline sorted w1)
      else if sort_by = ''priority'' then (sorted, sort_at eng cmp_priority sorted w1)
      else if sort_by = ''alphabetical'' then
        (sorted, sort_at eng (cmp_alphabetical eng) sorted w1)
      else (sorted, w1))"










text \<open>The comparator that the \<^verbatim>\<open>switch\<close> of \<^verbatim>\<open>sortTasks\<close> selects, if any.\<close>

definition comparator_of :: "engine \<Rightarrow> string \<Rightarrow> (task \<Rightarrow> task \<Rightarrow> int) option" where
  "comparator_of eng sort_by =
     (if sort_by = ''newest'' then Some cmp_newest
      else if sort_by = ''deadline'' then Some cmp_deadline
      else if sort_by = ''priority'' then Some cmp_priority
      else if sort_by = ''alphabetical'' then Some (cmp_alphabetical eng)
      else None)"

text \<open>
  \<open>same_below w w'\<close>: \<open>w'\<close> differs from \<open>w\<close> at most in arrays that did not exist in
  \<open>w\<close>.
\<close>

definition same_below :: "world \<Rightarrow> world \<Rightarrow> bool" where
  "same_below w w' =
     ((\<forall>r < next_ref w. arrays w' r = arrays w r) \<and> next_ref w \<le> next_ref w' \<and>
      tasks w' = tasks w \<and> filters w' = filters w \<and>
      stored_tasks w' = stored_tasks w \<and> stored_stats w' = stored_stats w)"

subsection \<open>Two implementations of \<^verbatim>\<open>Array.prototype.sort\<close>\<close>

text \<open>
  Two insertion sorts. Each takes the elements from left to right and moves the new element
  \<open>x\<close> towards the front of the sorted prefix (kept in reverse, last element first). The
  first moves \<open>x\<close> past \<open>y\<close> while \<^verbatim>\<open>cmp(x, y) < 0\<close>, the second while
  \<^verbatim>\<open>cmp(y, x) > 0\<close>. For a consistent comparator the two tests agree and both sorts
  are stable.
\<close>

fun shift_lt :: "('a \<Rightarrow> 'a \<Rightarrow> int) \<Rightarrow> 'a \<Rightarrow> 'a list \<Rightarrow> 'a list" where
  "shift_lt cmp x [] = [x]"
| "shift_lt cmp x (y # ys) = (if cmp x y < 0 then y # shift_lt cmp x ys else x # y # ys)"

fun shift_gt :: "('a \<Rightarrow> 'a \<Rightarrow> int) \<Rightarrow> 'a \<Rightarrow> 'a list \<Rightarrow> 'a list" where
  "shift_gt cmp x [] = [x]"
| "shift_gt cmp x (y # ys) = (if cmp y x > 0 then y # shift_gt cmp x ys else x # y # ys)"

definition insertion_sort_lt :: "('a \<Rightarrow> 'a \<Rightarrow> int) \<Rightarrow> 'a list \<Rightarrow> 'a list" where
  "insertion_sort_lt cmp xs = rev (foldl (\<lambda>acc x. shift_lt cmp x acc) [] xs)"

definition insertion_sort_gt :: "('a \<Rightarrow> 'a \<Rightarrow> int) \<Rightarrow> 'a list \<Rightarrow> 'a list" where
  "insertion_sort_gt cmp xs = rev (foldl (\<lambda>acc x. shift_gt cmp x acc) [] xs)"

text \<open>A comparison of strings by character code, standing for \<^verbatim>\<open>localeCompare\<close>.\<close>

fun compare_codes :: "string \<Rightarrow> string \<Rightarrow> int" where
  "compare_codes [] [] = 0"
| "compare_codes [] (y # ys) = - 1"
| "compare_codes (x # xs) [] = 1"
| "compare_codes (x # xs) (y # ys) =
     (if (of_char x :: nat) < of_char y then - 1
      else if (of_char y :: nat) < of_char x then 1
      else compare_codes xs ys)"

definition engine_lt :: engine where
  "engine_lt = \<lparr> sort_impl = insertion_sort_lt, localeCompare = compare_codes \<rparr>"

definition engine_gt :: engine where
  "engine_gt = \<lparr> sort_impl = insertion_sort_gt, localeCompare = compare_codes \<rparr>"

text \<open>What every implementation of \<^verbatim>\<open>sort\<close> does: it rearranges the array.\<close>

definition rearranges :: "engine \<Rightarrow> bool" where
  "rearranges eng = (\<forall>cmp xs. mset (sort_impl eng cmp xs) = mset xs)"

subsection \<open>Statistics\<close>

text \<open>
  JavaScript numbers are IEEE 754 doubles. \<^verbatim>\<open>getStats\<close> divides two array lengths and
  multiplies the quotient by 100, each result rounded to the nearest double (53 significant
  bits, ties to even). A positive double is a pair \<open>(m, x)\<close> with value \<open>m * 2 ^ x\<close> and
  \<open>2 ^ 52 \<le> m < 2 ^ 53\<close>; zero is \<open>(0, 0)\<close>. The values that occur here lie between
  \<open>2 ^ - 53\<close> and 100, far from the subnormal and the overflow range.
\<close>

type_synonym double = "nat \<times> int"

fun bit_length :: "nat \<Rightarrow> nat" where
  "bit_length n = (if n = 0 then 0 else Suc (bit_length (n div 2)))"

declare bit_length.simps [simp del]

definition round_half_even :: "nat \<Rightarrow> nat \<Rightarrow> nat" where
  "round_half_even n d =
     (let q = n div d; r = n mod d in
      if 2 * r < d then q
      else if 2 * r > d then q + 1
      else if even q then q else q + 1)"

text \<open>The double nearest to \<open>(n / d) * 2 ^ x\<close>, for positive \<open>n\<close> and \<open>d\<close>.\<close>

definition nearest_double :: "nat \<Rightarrow> nat \<Rightarrow> int \<Rightarrow> double" where
  "nearest_double n d x =
     (let bl = int (bit_length n) - int (bit_length d);
          below = (if bl \<ge> 0 then n < d * 2 ^ nat bl else n * 2 ^ nat (- bl) < d);
          e0 = (if below then bl - 1 else bl);
          s = 52 - e0;
          m = (if s \<ge> 0 then round_half_even (n * 2 ^ nat s) d
               else round_half_even n (d * 2 ^ nat (- s)))
      in if m = 2 ^ 53 then (2 ^ 52, e0 - 52 + 1 + x) else (m, e0 - 52 + x))"

definition number_div :: "nat \<Rightarrow> nat \<Rightarrow> double" where
  "number_div a b = (if a = 0 then (0, 0) else nearest_double a b 0)"

definition number_times :: "double \<Rightarrow> nat \<Rightarrow> double" where
  "number_times v k = (case v of (m, x) \<Rightarrow> if m = 0 then (0, 0) else nearest_double (m * k) 1 x)"

text \<open>\<^verbatim>\<open>Math.round\<close>: the integer nearest to the double, a half rounded up.\<close>

definition Math_round :: "double \<Rightarrow> nat" where
  "Math_round v =
     (case v of (m, x) \<Rightarrow>
        if x \<ge> 0 then m * 2 ^ nat x
        else (m + 2 ^ (nat (- x) - 1)) div 2 ^ nat (- x))"

record completion_stats =
  total :: nat
  completed :: nat
  pending :: nat
  inProgress :: nat
  skipped :: nat
  completionRate :: nat

text \<open>\<^verbatim>\<open>TaskManager.getStats\<close> (lines 281 to 296).\<close>

definition count_status :: "string \<Rightarrow> task list \<Rightarrow> nat" where
  "count_status s ts = length (filter (\<lambda>t. status t = Some s) ts)"

definition getStats :: "world \<Rightarrow> completion_stats" where
  "getStats w =
     (let n = length (collection w);
          c = count_status ''completed'' (collection w)
      in \<lparr> total = n,
           completed = c,
           pending = count_status ''pending'' (collection w),
           inProgress = count_status ''in-progress'' (collection w),
           skipped = count_status ''skipped'' (collection w),
           completionRate = (if n > 0 then Math_round (number_times (number_div c n) 100) else 0) \<rparr>)"













subsection \<open>Example states\<close>

definition example_env :: env where
  "example_env = \<lparr> now = 86400000000, rnd = (\<lambda>k. ''r'' @ dec_nat k) \<rparr>"

definition blank_task :: task where
  "blank_task =
     \<lparr> tid = NoId, title = [], description = None, category = None, priority = None,
       deadline = None, status = None, createdAt = None, completedAt = None \<rparr>"

definition done_task :: "string \<Rightarrow> instant \<Rightarrow> task" where
  "done_task i ts = blank_task\<lparr>tid := StrId i, status := Some ''completed'', completedAt := Some ts\<rparr>"

definition world_with :: "task list \<Rightarrow> world" where
  "world_with ts = set_array 0 ts initial_world"

text \<open>
  Stated from the spec: \<^verbatim>\<open>round(100 * completed/total)\<close>, the percentage rounded to the
  nearest integer (a half rounded up), and 0 when \<open>total\<close> is 0.
\<close>

definition spec_completionRate :: "nat \<Rightarrow> nat \<Rightarrow> nat" where
  "spec_completionRate c n = (if n = 0 then 0 else (200 * c + n) div (2 * n))"


text \<open>
  The order that a comparator has to describe for \<^verbatim>\<open>sort\<close> to be determined: a strict
  weak order. Two elements are tied when neither is less than the other.
\<close>

definition strict_weak :: "('a \<Rightarrow> 'a \<Rightarrow> bool) \<Rightarrow> bool" where
  "strict_weak lt =
     ((\<forall>x. \<not> lt x x) \<and> (\<forall>x y z. lt x y \<and> lt y z \<longrightarrow> lt x z) \<and>
      (\<forall>x y z. \<not> lt x y \<and> \<not> lt y z \<longrightarrow> \<not> lt x z))"

definition tied :: "('a \<Rightarrow> 'a \<Rightarrow> bool) \<Rightarrow> 'a \<Rightarrow> 'a \<Rightarrow> bool" where
  "tied lt k y = (\<not> lt k y \<and> \<not> lt y k)"

subsection \<open>Devices for stating the properties of update\<close>

text \<open>
  The argument \<^verbatim>\<open>updates\<close> as \<^verbatim>\<open>update\<close> leaves it when it has found the task: the two
  \<^verbatim>\<open>if\<close> blocks of \<^verbatim>\<open>update\<close>, which exclude each other, as one function of the old
  status.
\<close>

definition patch_left :: "env \<Rightarrow> string option \<Rightarrow> patch \<Rightarrow> patch" where
  "patch_left e oldStatus updates =
     (if p_status updates = Some (Some ''completed'') \<and> oldStatus \<noteq> Some ''completed''
      then updates\<lparr>p_completedAt := Some (Some (now e))\<rparr>
      else if oldStatus = Some ''completed'' \<and> p_status updates \<noteq> Some (Some ''completed'')
      then updates\<lparr>p_completedAt := Some None\<rparr>
      else updates)"

text \<open>A patch without the keys \<^verbatim>\<open>id\<close> and \<^verbatim>\<open>createdAt\<close>.\<close>

definition id_free :: "patch \<Rightarrow> bool" where
  "id_free u = (p_id u = None \<and> p_createdAt u = None)"

definition id_created :: "task \<Rightarrow> idval \<times> instant option" where
  "id_created t = (tid t, createdAt t)"

text \<open>
  Where the task at index \<open>k\<close> of the collection is after an operation, and \<open>None\<close> when
  the operation has removed it: \<^verbatim>\<open>filter\<close> moves a kept element forward by the number
  of elements removed before it; the other operations replace a task in place or append.
\<close>

definition kept_position :: "('a \<Rightarrow> bool) \<Rightarrow> 'a list \<Rightarrow> nat \<Rightarrow> nat option" where
  "kept_position keep xs k =
     (if keep (xs ! k) then Some (length (filter keep (take k xs))) else None)"

fun position_after :: "op \<Rightarrow> world \<Rightarrow> nat \<Rightarrow> nat option" where
  "position_after (Delete i) w k = kept_position (\<lambda>t. tid t \<noteq> StrId i) (collection w) k"
| "position_after ClearCompleted w k =
     kept_position (\<lambda>t. status t \<noteq> Some ''completed'') (collection w) k"
| "position_after (BulkDelete ids) w k =
     kept_position (\<lambda>t. tid t \<notin> set (map StrId ids)) (collection w) k"
| "position_after x w k = Some k"

fun position_after_run :: "op list \<Rightarrow> world \<Rightarrow> nat \<Rightarrow> nat option" where
  "position_after_run [] w k = Some k"
| "position_after_run (x # xs) w k =
     (case position_after x w k of
        None \<Rightarrow> None
      | Some k' \<Rightarrow> position_after_run xs (step x w) k')"

fun op_id_free :: "op \<Rightarrow> bool" where
  "op_id_free (Update e i u) = id_free u"
| "op_id_free (BulkUpdate e ids u) = id_free u"
| "op_id_free x = True"

text \<open>The patch \<^verbatim>\<open>{}\<close>.\<close>

definition empty_patch :: patch where
  "empty_patch =
     \<lparr> p_id = None, p_title = None, p_description = None, p_category = None, p_priority = None,
       p_deadline = None, p_status = None, p_createdAt = None, p_completedAt = None \<rparr>"

subsection \<open>The invariant of completedAt\<close>

text \<open>\<open>completedAt\<close> is non-null if and only if \<open>status\<close> is \<^verbatim>\<open>completed\<close>.\<close>

definition consistent :: "task \<Rightarrow> bool" where
  "consistent t = ((completedAt t \<noteq> None) = (status t = Some ''completed''))"

text \<open>
  A patch that carries a status, and whose \<open>completedAt\<close>, if it carries one, agrees with
  that status. \<^verbatim>\<open>bulkUpdate\<close> passes on the patch that \<^verbatim>\<open>update\<close> has written to.
\<close>

definition patch_agrees :: "patch \<Rightarrow> bool" where
  "patch_agrees u =
     (p_status u \<noteq> None \<and>
      (case p_completedAt u of
         None \<Rightarrow> True
       | Some v \<Rightarrow> (v \<noteq> None) = (p_status u = Some (Some ''completed''))))"

text \<open>
  The operations for which the invariant is kept: every patch carries a status and no
  \<open>completedAt\<close>, and imported tasks satisfy the invariant themselves.
\<close>

fun admissible :: "op \<Rightarrow> bool" where
  "admissible (Update e i u) = (p_status u \<noteq> None \<and> p_completedAt u = None)"
| "admissible (BulkUpdate e ids u) = (p_status u \<noteq> None \<and> p_completedAt u = None)"
| "admissible (Import e d) = list_all consistent (payload_tasks d)"
| "admissible x = True"

definition example_taskData :: taskData where
  "example_taskData =
     \<lparr> d_title = ''Read'', d_description = None, d_category = None, d_priority = None,
       d_deadline = None \<rparr>"

section \<open>Properties\<close>

lemma collection_world_with: "collection (world_with ts) = ts"
  by (simp add: world_with_def collection_def set_array_def initial_world_def)

subsection \<open>The streak update\<close>

lemma getStats_stored_updateStats:
  "getStats_stored (updateStats e action w) =
     updateStats_record action (getTodayString e) (getStats_stored w)"
  by (simp add: updateStats_def saveStats_def getStats_stored_def)

lemma getStats_stored_updateDailyStats:
  "\<exists>m. getStats_stored (updateDailyStats d x y w) = (getStats_stored w)\<lparr>dailyStats := m\<rparr>"
  by (simp add: updateDailyStats_def saveStats_def getStats_stored_def Let_def) blast

lemma getStats_stored_save: "getStats_stored (save (set_array r xs w)) = getStats_stored w"
  by (simp add: save_def set_array_def getStats_stored_def)

lemma update_completing_stats:
  assumes "findIndex (\<lambda>t. tid t = StrId i) (collection w) = Some k"
    and "p_status u = Some (Some ''completed'')"
    and "status (collection w ! k) \<noteq> Some ''completed''"
  shows "\<exists>m. getStats_stored (snd (snd (update e i u w))) =
           (updateStats_record ''completed'' (getTodayString e) (getStats_stored w))\<lparr>dailyStats := m\<rparr>"
proof -
  let ?w' = "updateStats e ''completed'' w"
  let ?d = "updateDailyStats (getTodayString e)
              (Some (getCompletedCountByDate (getTodayString e) ?w' + 1)) None ?w'"
  have "getStats_stored (snd (snd (update e i u w))) = getStats_stored ?d"
    using assms by (simp add: update_def Let_def getStats_stored_save)
  then show ?thesis
    using getStats_stored_updateDailyStats [of "getTodayString e"
        "Some (getCompletedCountByDate (getTodayString e) ?w' + 1)" None ?w']
    by (simp add: getStats_stored_updateStats)
qed

text \<open>
  Claim C2. The streak update of \<^verbatim>\<open>updateStats\<close>, for every Rolling Stats Record:
  when \<open>lastActiveDate\<close> is the day before today, \<open>currentStreak\<close> grows by one; when it is
  more than one day before today, \<open>currentStreak\<close> becomes 1; when there is no
  \<open>lastActiveDate\<close>, \<open>currentStreak\<close> becomes 1; afterwards \<open>longestStreak\<close> is the
  maximum of its old value and the new \<open>currentStreak\<close>, and \<open>lastActiveDate\<close> is today.
  \<^verbatim>\<open>create\<close> runs this step on the stored record, and so does \<^verbatim>\<open>update\<close> when it
  completes a task (it then also writes the day's count to \<open>dailyStats\<close>). With
  \<open>lastActiveDate\<close> two days ago, creating a task sets \<open>currentStreak\<close> to 1 and
  \<open>longestStreak\<close> to the maximum of its old value and 1.
\<close>

theorem updateStats_streak_rule:
  "(lastActiveDate s = Some (today - 1) \<longrightarrow>
      currentStreak (updateStats_record action today s) = currentStreak s + 1) \<and>
   (\<forall>lastActive. lastActiveDate s = Some lastActive \<and> lastActive < today - 1 \<longrightarrow>
      currentStreak (updateStats_record action today s) = 1) \<and>
   (lastActiveDate s = None \<longrightarrow> currentStreak (updateStats_record action today s) = 1) \<and>
   longestStreak (updateStats_record action today s) =
     max (longestStreak s) (currentStreak (updateStats_record action today s)) \<and>
   lastActiveDate (updateStats_record action today s) = Some today \<and>
   getStats_stored (snd (create e taskData w)) =
     updateStats_record ''created'' (getTodayString e) (getStats_stored w) \<and>
   (\<forall>k. findIndex (\<lambda>t. tid t = StrId i) (collection w) = Some k \<and>
        p_status u = Some (Some ''completed'') \<and>
        status (collection w ! k) \<noteq> Some ''completed'' \<longrightarrow>
      (\<exists>m. getStats_stored (snd (snd (update e i u w))) =
         (updateStats_record ''completed'' (getTodayString e) (getStats_stored w))
           \<lparr>dailyStats := m\<rparr>)) \<and>
   (lastActiveDate (getStats_stored w) = Some (getTodayString e - 2) \<longrightarrow>
      currentStreak (getStats_stored (snd (create e taskData w))) = 1 \<and>
      longestStreak (getStats_stored (snd (create e taskData w))) =
        max (longestStreak (getStats_stored w)) 1)"
proof -
  have rule: "(lastActiveDate s = Some (today - 1) \<longrightarrow>
      currentStreak (updateStats_record action today s) = currentStreak s + 1) \<and>
   (\<forall>lastActive. lastActiveDate s = Some lastActive \<and> lastActive < today - 1 \<longrightarrow>
      currentStreak (updateStats_record action today s) = 1) \<and>
   (lastActiveDate s = None \<longrightarrow> currentStreak (updateStats_record action today s) = 1) \<and>
   longestStreak (updateStats_record action today s) =
     max (longestStreak s) (currentStreak (updateStats_record action today s)) \<and>
   lastActiveDate (updateStats_record action today s) = Some today" for s today action
    by (auto simp: updateStats_record_def bump_longest_def bump_streak_def bump_counter_def
          Let_def split: option.splits)
  have cr: "getStats_stored (snd (create e taskData w)) =
      updateStats_record ''created'' (getTodayString e) (getStats_stored w)"
    by (simp add: create_def Let_def getStats_stored_updateStats getStats_stored_save)
  have two: "currentStreak (getStats_stored (snd (create e taskData w))) = 1 \<and>
      longestStreak (getStats_stored (snd (create e taskData w))) =
        max (longestStreak (getStats_stored w)) 1"
    if "lastActiveDate (getStats_stored w) = Some (getTodayString e - 2)"
    unfolding cr using that
    by (simp add: updateStats_record_def bump_longest_def bump_streak_def bump_counter_def
          Let_def)
  show ?thesis
    using rule [of s today action] cr two update_completing_stats [of i w _ u e]
    by blast
qed

text \<open>
  Claim C10, as the code has it. When \<open>lastActiveDate\<close> is already today, the streak
  update leaves \<open>currentStreak\<close>, \<open>lastActiveDate\<close> and \<open>dailyStats\<close> as they are and
  adds one to the counter of the action. \<open>longestStreak\<close> becomes the maximum of itself
  and \<open>currentStreak\<close>: it stays as it is exactly when \<open>currentStreak\<close> is not above it.
  Every record that \<^verbatim>\<open>updateStats\<close> has saved is of that kind.
\<close>

theorem updateStats_same_day:
  assumes "lastActiveDate s = Some today"
  shows "currentStreak (updateStats_record action today s) = currentStreak s \<and>
         lastActiveDate (updateStats_record action today s) = lastActiveDate s \<and>
         dailyStats (updateStats_record action today s) = dailyStats s \<and>
         longestStreak (updateStats_record action today s) =
           max (longestStreak s) (currentStreak s) \<and>
         totalTasksCreated (updateStats_record action today s) =
           totalTasksCreated s + (if action = ''created'' then 1 else 0) \<and>
         totalTasksCompleted (updateStats_record action today s) =
           totalTasksCompleted s + (if action = ''completed'' then 1 else 0) \<and>
         (longestStreak (updateStats_record action today s) = longestStreak s \<longleftrightarrow>
            currentStreak s \<le> longestStreak s) \<and>
         (\<forall>action' day s'.
            currentStreak (updateStats_record action' day s') \<le>
              longestStreak (updateStats_record action' day s'))"
proof -
  have streak: "bump_streak today (bump_counter action s) = bump_counter action s"
    using assms by (simp add: bump_streak_def bump_counter_def)
  have fields: "currentStreak (updateStats_record action today s) = currentStreak s \<and>
         lastActiveDate (updateStats_record action today s) = lastActiveDate s \<and>
         dailyStats (updateStats_record action today s) = dailyStats s \<and>
         longestStreak (updateStats_record action today s) =
           max (longestStreak s) (currentStreak s) \<and>
         totalTasksCreated (updateStats_record action today s) =
           totalTasksCreated s + (if action = ''created'' then 1 else 0) \<and>
         totalTasksCompleted (updateStats_record action today s) =
           totalTasksCompleted s + (if action = ''completed'' then 1 else 0)"
    unfolding updateStats_record_def streak
    using assms by (auto simp: bump_longest_def bump_counter_def)
  have same: "longestStreak (updateStats_record action today s) = longestStreak s \<longleftrightarrow>
      currentStreak s \<le> longestStreak s"
    using fields by auto
  have saved: "currentStreak (updateStats_record action' day s') \<le>
      longestStreak (updateStats_record action' day s')" for action' day s'
    by (simp add: updateStats_record_def bump_longest_def)
  show ?thesis
    using fields same saved by blast
qed

text \<open>
  Claim C10 as stated fails on a record with \<open>currentStreak\<close> above \<open>longestStreak\<close>, which
  \<^verbatim>\<open>Storage.importData\<close> can put under the statistics key: with \<open>currentStreak\<close> 5,
  \<open>longestStreak\<close> 2 and \<open>lastActiveDate\<close> today, the update raises \<open>longestStreak\<close> to 5.
\<close>

theorem updateStats_same_day_counterexample:
  "lastActiveDate (default_stats\<lparr>currentStreak := 5, longestStreak := 2,
      lastActiveDate := Some 10\<rparr>) = Some 10 \<and>
   longestStreak (default_stats\<lparr>currentStreak := 5, longestStreak := 2,
      lastActiveDate := Some 10\<rparr>) = 2 \<and>
   longestStreak (updateStats_record ''created'' 10
     (default_stats\<lparr>currentStreak := 5, longestStreak := 2, lastActiveDate := Some 10\<rparr>)) = 5"
  by (simp add: updateStats_record_def bump_longest_def bump_streak_def bump_counter_def
        default_stats_def)

theorem updateStats_streak_rule_witness:
  "currentStreak (updateStats_record ''created'' 10
      (default_stats\<lparr>currentStreak := 3, longestStreak := 3, lastActiveDate := Some (10 - 1)\<rparr>)) = 3 + 1 \<and>
   ((8::int) < 10 - 1 \<and>
    currentStreak (updateStats_record ''created'' 10
      (default_stats\<lparr>currentStreak := 3, longestStreak := 5, lastActiveDate := Some 8\<rparr>)) = 1 \<and>
    longestStreak (updateStats_record ''created'' 10
      (default_stats\<lparr>currentStreak := 3, longestStreak := 5, lastActiveDate := Some 8\<rparr>)) = 5) \<and>
   currentStreak (updateStats_record ''completed'' 10 default_stats) = 1 \<and>
   lastActiveDate (getStats_stored (initial_world\<lparr>stored_stats :=
      Some (default_stats\<lparr>currentStreak := 4, longestStreak := 4,
              lastActiveDate := Some 8\<rparr>)\<rparr>)) =
     Some (getTodayString \<lparr>now = 864000000, rnd = (\<lambda>k. ''r'')\<rparr> - 2) \<and>
   currentStreak (getStats_stored (snd (create \<lparr>now = 864000000, rnd = (\<lambda>k. ''r'')\<rparr>
      \<lparr>d_title = ''t'', d_description = None, d_category = None, d_priority = None,
        d_deadline = None\<rparr>
      (initial_world\<lparr>stored_stats :=
         Some (default_stats\<lparr>currentStreak := 4, longestStreak := 4,
                 lastActiveDate := Some 8\<rparr>)\<rparr>)))) = 1 \<and>
   longestStreak (getStats_stored (snd (create \<lparr>now = 864000000, rnd = (\<lambda>k. ''r'')\<rparr>
      \<lparr>d_title = ''t'', d_description = None, d_category = None, d_priority = None,
        d_deadline = None\<rparr>
      (initial_world\<lparr>stored_stats :=
         Some (default_stats\<lparr>currentStreak := 4, longestStreak := 4,
                 lastActiveDate := Some 8\<rparr>)\<rparr>)))) = 4 \<and>
   findIndex (\<lambda>t. tid t = StrId ''a'')
     (collection (world_with [blank_task\<lparr>tid := StrId ''a'', status := Some ''pending''\<rparr>])) = Some 0 \<and>
   p_status (empty_patch\<lparr>p_status := Some (Some ''completed'')\<rparr>) = Some (Some ''completed'') \<and>
   status (collection (world_with [blank_task\<lparr>tid := StrId ''a'', status := Some ''pending''\<rparr>]) ! 0)
     \<noteq> Some ''completed'' \<and>
   currentStreak (getStats_stored (snd (snd (update example_env ''a''
      (empty_patch\<lparr>p_status := Some (Some ''completed'')\<rparr>)
      (world_with [blank_task\<lparr>tid := StrId ''a'', status := Some ''pending''\<rparr>]))))) = 1 \<and>
   totalTasksCompleted (getStats_stored (snd (snd (update example_env ''a''
      (empty_patch\<lparr>p_status := Some (Some ''completed'')\<rparr>)
      (world_with [blank_task\<lparr>tid := StrId ''a'', status := Some ''pending''\<rparr>]))))) = 1"
proof -
  let ?w2 = "world_with [blank_task\<lparr>tid := StrId ''a'', status := Some ''pending''\<rparr>]"
  let ?u2 = "empty_patch\<lparr>p_status := Some (Some ''completed'')\<rparr>"
  have f: "findIndex (\<lambda>t. tid t = StrId ''a'') (collection ?w2) = Some 0"
    by (simp add: collection_world_with)
  have g: "p_status ?u2 = Some (Some ''completed'') \<and>
           status (collection ?w2 ! 0) \<noteq> Some ''completed''"
    by (simp add: collection_world_with)
  have st: "getStats_stored ?w2 = default_stats"
    by (simp add: getStats_stored_def world_with_def set_array_def initial_world_def)
  obtain m where m: "getStats_stored (snd (snd (update example_env ''a'' ?u2 ?w2))) =
      (updateStats_record ''completed'' (getTodayString example_env) default_stats)\<lparr>dailyStats := m\<rparr>"
    using updateStats_streak_rule [of default_stats 10 "''created''" example_env example_taskData
        ?w2 "''a''" ?u2] f g
    unfolding st by blast
  have compl: "currentStreak (getStats_stored (snd (snd (update example_env ''a'' ?u2 ?w2)))) = 1 \<and>
      totalTasksCompleted (getStats_stored (snd (snd (update example_env ''a'' ?u2 ?w2)))) = 1"
    unfolding m
    by (simp add: updateStats_record_def bump_longest_def bump_streak_def bump_counter_def
          default_stats_def)
  let ?e = "\<lparr>now = 864000000, rnd = (\<lambda>k. ''r'')\<rparr>"
  let ?td = "\<lparr>d_title = ''t'', d_description = None, d_category = None, d_priority = None,
        d_deadline = None\<rparr>"
  let ?w = "initial_world\<lparr>stored_stats :=
         Some (default_stats\<lparr>currentStreak := 4, longestStreak := 4,
                 lastActiveDate := Some 8\<rparr>)\<rparr>"
  have a: "lastActiveDate (default_stats\<lparr>currentStreak := 3, longestStreak := 3,
             lastActiveDate := Some (10 - 1)\<rparr>) = Some (10 - 1)"
    by simp
  have b: "lastActiveDate (default_stats\<lparr>currentStreak := 3, longestStreak := 5,
             lastActiveDate := Some 8\<rparr>) = Some 8 \<and> (8::int) < 10 - 1"
    by simp
  have c: "lastActiveDate default_stats = None"
    by (simp add: default_stats_def)
  have d: "lastActiveDate (getStats_stored ?w) = Some (getTodayString ?e - 2)"
    by (simp add: getStats_stored_def getTodayString_def date_of_def)
  show ?thesis
    using a b c d f g compl
      updateStats_streak_rule [of "default_stats\<lparr>currentStreak := 3, longestStreak := 3,
             lastActiveDate := Some (10 - 1)\<rparr>" 10 "''created''" ?e ?td ?w]
      updateStats_streak_rule [of "default_stats\<lparr>currentStreak := 3, longestStreak := 5,
             lastActiveDate := Some 8\<rparr>" 10 "''created''" ?e ?td ?w]
      updateStats_streak_rule [of default_stats 10 "''completed''" ?e ?td ?w]
    by (simp add: default_stats_def getStats_stored_def)
qed

theorem updateStats_same_day_witness:
  "lastActiveDate (updateStats_record ''created'' 5 default_stats) = Some 5 \<and>
   currentStreak (updateStats_record ''created'' 5 default_stats) \<le>
     longestStreak (updateStats_record ''created'' 5 default_stats) \<and>
   currentStreak (updateStats_record ''completed'' 5
     (updateStats_record ''created'' 5 default_stats)) = 1 \<and>
   longestStreak (updateStats_record ''completed'' 5
     (updateStats_record ''created'' 5 default_stats)) = 1 \<and>
   totalTasksCompleted (updateStats_record ''completed'' 5
     (updateStats_record ''created'' 5 default_stats)) = 1"
proof -
  have l: "lastActiveDate (updateStats_record ''created'' 5 default_stats) = Some 5"
    by (simp add: updateStats_record_def)
  have v: "currentStreak (updateStats_record ''created'' 5 default_stats) = 1 \<and>
           longestStreak (updateStats_record ''created'' 5 default_stats) = 1 \<and>
           totalTasksCompleted (updateStats_record ''created'' 5 default_stats) = 0"
    by (simp add: updateStats_record_def bump_longest_def bump_streak_def bump_counter_def
          default_stats_def)
  have le: "currentStreak (updateStats_record ''created'' 5 default_stats) \<le>
     longestStreak (updateStats_record ''created'' 5 default_stats)"
    using v by simp
  have same: "longestStreak (updateStats_record ''completed'' 5
       (updateStats_record ''created'' 5 default_stats)) =
     longestStreak (updateStats_record ''created'' 5 default_stats)"
    using updateStats_same_day [OF l, of "''completed''"] le by blast
  show ?thesis
    using l v le same updateStats_same_day [OF l, of "''completed''"]
    by simp
qed

subsection \<open>The derived streak\<close>









subsection \<open>Completion statistics\<close>

lemma number_div_self: "0 < n \<Longrightarrow> number_div n n = (2 ^ 52, - 52)"
  by (simp add: number_div_def nearest_double_def round_half_even_def Let_def)

lemma hundred_percent: "Math_round (number_times (2 ^ 52, - 52) 100) = 100"
  by (simp add: Math_round_def number_times_def nearest_double_def round_half_even_def
        bit_length.simps Let_def)

lemma count_status_all:
  "\<forall>t \<in> set ts. status t = Some s \<Longrightarrow> count_status s ts = length ts"
  by (simp add: count_status_def)

text \<open>
  Claim C8, as the code has it. \<open>total\<close> is the size of the collection and \<open>completed\<close>
  the number of tasks with status \<^verbatim>\<open>completed\<close>. \<open>completionRate\<close> is 0 for the empty
  collection; otherwise it is \<^verbatim>\<open>Math.round\<close> of the double
  \<^verbatim>\<open>(completed / total) * 100\<close>; it is exactly 100 when the collection is not empty and
  every task is completed.
\<close>

theorem getStats_completionRate:
  "total (getStats w) = length (collection w) \<and>
   completed (getStats w) = length (filter (\<lambda>t. status t = Some ''completed'') (collection w)) \<and>
   (total (getStats w) = 0 \<longrightarrow> completionRate (getStats w) = 0) \<and>
   (total (getStats w) > 0 \<longrightarrow>
      completionRate (getStats w) =
        Math_round (number_times (number_div (completed (getStats w)) (total (getStats w))) 100)) \<and>
   (collection w \<noteq> [] \<and> (\<forall>t \<in> set (collection w). status t = Some ''completed'') \<longrightarrow>
      completionRate (getStats w) = 100)"
proof -
  have "completionRate (getStats w) = 100"
    if ne: "collection w \<noteq> []" and all: "\<forall>t \<in> set (collection w). status t = Some ''completed''"
  proof -
    have c: "count_status ''completed'' (collection w) = length (collection w)"
      using all by (rule count_status_all)
    have pos: "0 < length (collection w)"
      using ne by simp
    have "completionRate (getStats w) =
            Math_round (number_times (number_div (length (collection w)) (length (collection w))) 100)"
      using pos by (simp add: getStats_def c Let_def)
    then show ?thesis
      by (simp only: number_div_self [OF pos] hundred_percent)
  qed
  then show ?thesis
    by (simp add: getStats_def count_status_def Let_def)
qed

text \<open>
  Claim C8 as stated fails: with 23 of 40 tasks completed the quotient \<^verbatim>\<open>23 / 40\<close> is the
  double just below 0.575, its product with 100 is the double \<^verbatim>\<open>57.49999999999999\<close>,
  and \<^verbatim>\<open>Math.round\<close> gives 57, while 100 * 23 / 40 = 57.5 rounds to 58.
\<close>

theorem getStats_completionRate_counterexample:
  "completionRate (getStats (world_with (replicate 23 (done_task ''a'' 5) @ replicate 17 blank_task))) = 57 \<and>
   total (getStats (world_with (replicate 23 (done_task ''a'' 5) @ replicate 17 blank_task))) = 40 \<and>
   completed (getStats (world_with (replicate 23 (done_task ''a'' 5) @ replicate 17 blank_task))) = 23 \<and>
   spec_completionRate 23 40 = 58"
proof -
  have r: "Math_round (number_times (number_div 23 40) 100) = 57"
    by (simp add: Math_round_def number_times_def number_div_def nearest_double_def
          round_half_even_def bit_length.simps Let_def)
  show ?thesis
    by (simp add: getStats_def collection_world_with count_status_def done_task_def
          blank_task_def r spec_completionRate_def Let_def)
qed

theorem getStats_completionRate_witness:
  "total (getStats initial_world) = 0 \<and>
   completionRate (getStats initial_world) = 0 \<and>
   0 < total (getStats (world_with [done_task ''a'' 5, done_task ''b'' 7])) \<and>
   collection (world_with [done_task ''a'' 5, done_task ''b'' 7]) \<noteq> [] \<and>
   list_all (\<lambda>t. status t = Some ''completed'')
     (collection (world_with [done_task ''a'' 5, done_task ''b'' 7])) \<and>
   completionRate (getStats (world_with [done_task ''a'' 5, done_task ''b'' 7])) = 100"
proof -
  let ?w = "world_with [done_task ''a'' 5, done_task ''b'' 7]"
  have e: "total (getStats initial_world) = 0"
    by (simp add: getStats_def collection_def initial_world_def)
  have n: "collection ?w \<noteq> [] \<and> (\<forall>t \<in> set (collection ?w). status t = Some ''completed'')"
    by (simp add: collection_world_with done_task_def)
  have p: "0 < total (getStats ?w)"
    by (simp add: getStats_def collection_world_with Let_def)
  show ?thesis
    using e n p getStats_completionRate [of initial_world] getStats_completionRate [of ?w]
    by (simp add: list_all_iff)
qed

subsection \<open>Import\<close>

lemma map_tid_import:
  "map tid (map (\<lambda>(k, t). import_task e k t) (enumerate n ts)) =
   map (\<lambda>k. StrId (generateId e k)) [n..<n + length ts]"
proof -
  have "map tid (map (\<lambda>(k, t). import_task e k t) (enumerate n ts)) =
        map (\<lambda>x. StrId (generateId e (fst x))) (enumerate n ts)"
    by (simp add: import_task_def case_prod_beta comp_def)
  also have "\<dots> = map (\<lambda>k. StrId (generateId e k)) (map fst (enumerate n ts))"
    by (simp only: map_map comp_def)
  also have "\<dots> = map (\<lambda>k. StrId (generateId e k)) [n..<n + length ts]"
    by (simp only: map_fst_enumerate)
  finally show ?thesis .
qed

text \<open>The callback runs on every element in turn, unless one of them is \<^verbatim>\<open>null\<close>.\<close>

lemma map_import_objects:
  "map_import e k (map Some ts) = Inr (map (\<lambda>(k, t). import_task e k t) (enumerate k ts))"
  by (induction ts arbitrary: k) simp_all

lemma map_import_null: "None \<in> set xs \<Longrightarrow> map_import e k xs = Inl TypeError"
  by (induction e k xs rule: map_import.induct) auto

lemma objects_or_null: "None \<in> set xs \<or> xs = map Some (map the xs)"
  by (induction xs) auto

lemma import_tasks_NoObject: "import_tasks e NoObject w = (Inl TypeError, w)"
  by (simp add: import_tasks_def)

lemma import_tasks_not_array:
  "\<not> isArray v \<Longrightarrow> import_tasks e (Object v) w = (Inl (Error ''Invalid task data''), w)"
  by (simp add: import_tasks_def)

lemma import_tasks_null:
  "None \<in> set xs \<Longrightarrow> import_tasks e (Object (TaskArray xs)) w = (Inl TypeError, w)"
  by (simp add: import_tasks_def truthy_field_def isArray_def elements_def map_import_null)

lemma import_tasks_objects:
  "fst (import_tasks e (Object (TaskArray (map Some ts))) w) = Inr (length ts) \<and>
   collection (snd (import_tasks e (Object (TaskArray (map Some ts))) w)) =
     collection w @ map (\<lambda>(k, t). import_task e k t) (enumerate 0 ts) \<and>
   stored_tasks (snd (import_tasks e (Object (TaskArray (map Some ts))) w)) =
     collection (snd (import_tasks e (Object (TaskArray (map Some ts))) w))"
  by (simp add: import_tasks_def truthy_field_def isArray_def elements_def map_import_objects
        alloc_def save_def collection_def Let_def)

lemma payload_tasks_objects: "payload_tasks (Object (TaskArray (map Some ts))) = ts"
  by (simp add: payload_tasks_def list_all_iff comp_def)

lemma payload_tasks_null: "None \<in> set xs \<Longrightarrow> payload_tasks (Object (TaskArray xs)) = []"
  by (auto simp: payload_tasks_def list_all_iff)

lemma payload_tasks_not_array: "\<not> isArray v \<Longrightarrow> payload_tasks (Object v) = []"
  by (cases v) (simp_all add: payload_tasks_def isArray_def)

lemma import_collection:
  "collection (snd (import_tasks e d w)) =
     collection w @ map (\<lambda>(k, t). import_task e k t) (enumerate 0 (payload_tasks d))"
proof (cases d)
  case NoObject
  then show ?thesis
    by (simp add: import_tasks_NoObject payload_tasks_def)
next
  case (Object v)
  show ?thesis
  proof (cases "isArray v")
    case False
    then show ?thesis
      using Object by (simp add: import_tasks_not_array payload_tasks_not_array)
  next
    case True
    then obtain xs where v: "v = TaskArray xs"
      by (cases v) (simp_all add: isArray_def)
    show ?thesis
    proof (cases "None \<in> set xs")
      case True
      then show ?thesis
        using Object v by (simp add: import_tasks_null payload_tasks_null)
    next
      case False
      then have "xs = map Some (map the xs)"
        using objects_or_null [of xs] by simp
      then obtain ts where xs: "xs = map Some ts" ..
      show ?thesis
        unfolding Object v xs payload_tasks_objects
        using import_tasks_objects [of e ts w] by simp
    qed
  qed
qed

text \<open>
  Claim C6, on every payload. \<^verbatim>\<open>import\<close> raises \<^verbatim>\<open>Error('Invalid task data')\<close> exactly when
  the payload is an object whose \<^verbatim>\<open>tasks\<close> is not an array; it raises a \<^verbatim>\<open>TypeError\<close>
  exactly when the payload is \<^verbatim>\<open>null\<close> or undefined or its array holds such an element; it
  raises nothing exactly when \<^verbatim>\<open>tasks\<close> is an array of objects. After an exception the
  state is as before. On an array of objects it returns their number; the collection is
  the old collection, unchanged, followed by the payload's tasks in their order, the
  \<open>k\<close>-th with every field as it came except \<^verbatim>\<open>id\<close>, which is the \<open>k\<close>-th generated id
  whatever id it came with, and \<^verbatim>\<open>createdAt\<close>, which is the current time if it came with
  none; and the new collection is what is stored.
\<close>

theorem import_tasks_result:
  "(fst (import_tasks e data w) = Inl (Error ''Invalid task data'') \<longleftrightarrow>
      (\<exists>v. data = Object v \<and> \<not> isArray v)) \<and>
   (fst (import_tasks e data w) = Inl TypeError \<longleftrightarrow>
      data = NoObject \<or> (\<exists>xs. data = Object (TaskArray xs) \<and> None \<in> set xs)) \<and>
   ((\<exists>n. fst (import_tasks e data w) = Inr n) \<longleftrightarrow>
      (\<exists>ts. data = Object (TaskArray (map Some ts)))) \<and>
   ((\<exists>err. fst (import_tasks e data w) = Inl err) \<longrightarrow> snd (import_tasks e data w) = w) \<and>
   (\<forall>ts. data = Object (TaskArray (map Some ts)) \<longrightarrow>
      fst (import_tasks e data w) = Inr (length ts) \<and>
      collection (snd (import_tasks e data w)) =
        collection w @
        map (\<lambda>(k, t). t\<lparr> tid := StrId (generateId e k),
                         createdAt := Some (case createdAt t of Some c \<Rightarrow> c | None \<Rightarrow> now e) \<rparr>)
          (enumerate 0 ts) \<and>
      take (length (collection w)) (collection (snd (import_tasks e data w))) = collection w \<and>
      map tid (drop (length (collection w)) (collection (snd (import_tasks e data w)))) =
        map (\<lambda>k. StrId (generateId e k)) [0..<length ts] \<and>
      stored_tasks (snd (import_tasks e data w)) = collection (snd (import_tasks e data w)))"
proof -
  let ?new = "\<lambda>ts. map (\<lambda>(k, t). t\<lparr> tid := StrId (generateId e k),
                         createdAt := Some (case createdAt t of Some c \<Rightarrow> c | None \<Rightarrow> now e) \<rparr>)
                    (enumerate 0 ts)"
  have new: "?new ts = map (\<lambda>(k, t). import_task e k t) (enumerate 0 ts)" for ts
    by (simp add: import_task_def)
  have arr: "fst (import_tasks e (Object (TaskArray (map Some ts))) w) = Inr (length ts) \<and>
      collection (snd (import_tasks e (Object (TaskArray (map Some ts))) w)) =
        collection w @ ?new ts \<and>
      take (length (collection w))
        (collection (snd (import_tasks e (Object (TaskArray (map Some ts))) w))) = collection w \<and>
      map tid (drop (length (collection w))
        (collection (snd (import_tasks e (Object (TaskArray (map Some ts))) w)))) =
        map (\<lambda>k. StrId (generateId e k)) [0..<length ts] \<and>
      stored_tasks (snd (import_tasks e (Object (TaskArray (map Some ts))) w)) =
        collection (snd (import_tasks e (Object (TaskArray (map Some ts))) w))" for ts
    using import_tasks_objects [of e ts w] map_tid_import [of e 0 ts]
    by (simp only: new) simp
  have no_null: "None \<notin> set (map Some ts)" for ts :: "task list"
    by auto
  have shape: "data = NoObject \<or> (\<exists>v. data = Object v \<and> \<not> isArray v) \<or>
      (\<exists>xs. data = Object (TaskArray xs) \<and> None \<in> set xs) \<or>
      (\<exists>ts. data = Object (TaskArray (map Some ts)))"
  proof (cases data)
    case (Object v)
    show ?thesis
    proof (cases v)
      case (TaskArray xs)
      then show ?thesis
        using Object objects_or_null [of xs] by metis
    qed (use Object in \<open>simp_all add: isArray_def\<close>)
  qed simp
  from shape consider
      (null) "data = NoObject"
    | (format) v where "data = Object v" "\<not> isArray v"
    | (element) xs where "data = Object (TaskArray xs)" "None \<in> set xs"
    | (objects) ts where "data = Object (TaskArray (map Some ts))"
    by blast
  then show ?thesis
  proof cases
    case null
    then show ?thesis
      by (simp add: import_tasks_NoObject)
  next
    case format
    then have "import_tasks e data w = (Inl (Error ''Invalid task data''), w)"
      by (simp add: import_tasks_not_array)
    moreover have "\<forall>xs. v \<noteq> TaskArray xs"
      using format(2) by (auto simp: isArray_def)
    ultimately show ?thesis
      using format by simp
  next
    case element
    then have "import_tasks e data w = (Inl TypeError, w)"
      by (simp add: import_tasks_null)
    moreover have "isArray (TaskArray xs)"
      by (simp add: isArray_def)
    moreover have "\<forall>ts. xs \<noteq> map Some ts"
      using element(2) by auto
    ultimately show ?thesis
      using element by simp
  next
    case objects
    have "isArray (TaskArray (map Some ts))"
      by (simp add: isArray_def)
    then show ?thesis
      unfolding objects using arr [of ts] no_null [of ts]
      by (auto simp: inj_map_eq_map)
  qed
qed

text \<open>
  Claim C6 does not hold on every payload. The payload \<^verbatim>\<open>{tasks: [t, null]}\<close> has an array
  in \<^verbatim>\<open>tasks\<close>, and yet \<^verbatim>\<open>import\<close> fails, with a \<^verbatim>\<open>TypeError\<close>, and appends nothing, not
  even \<^verbatim>\<open>t\<close>. On the payload \<^verbatim>\<open>null\<close>, which has no \<^verbatim>\<open>tasks\<close>, the exception is a
  \<^verbatim>\<open>TypeError\<close> too, not the error of the format.
\<close>

theorem import_tasks_result_counterexample:
  "isArray (TaskArray [Some (done_task ''b'' 7), None]) \<and>
   import_tasks example_env (Object (TaskArray [Some (done_task ''b'' 7), None]))
       (world_with [done_task ''a'' 5]) =
     (Inl TypeError, world_with [done_task ''a'' 5]) \<and>
   import_tasks example_env NoObject (world_with [done_task ''a'' 5]) =
     (Inl TypeError, world_with [done_task ''a'' 5]) \<and>
   TypeError \<noteq> Error ''Invalid task data''"
  by (simp add: isArray_def truthy_field_def elements_def import_tasks_def)

theorem import_tasks_result_witness:
  "\<not> isArray NonArray \<and>
   import_tasks example_env (Object NonArray) (world_with [done_task ''a'' 5]) =
     (Inl (Error ''Invalid task data''), world_with [done_task ''a'' 5]) \<and>
   fst (import_tasks example_env
          (Object (TaskArray (map Some [(done_task ''a'' 7)\<lparr>createdAt := Some 3\<rparr>, blank_task])))
          (world_with [done_task ''a'' 5])) = Inr 2 \<and>
   collection (snd (import_tasks example_env
          (Object (TaskArray (map Some [(done_task ''a'' 7)\<lparr>createdAt := Some 3\<rparr>, blank_task])))
          (world_with [done_task ''a'' 5]))) =
     [done_task ''a'' 5,
      (done_task ''a'' 7)\<lparr>tid := StrId (generateId example_env 0), createdAt := Some 3\<rparr>,
      blank_task\<lparr>tid := StrId (generateId example_env 1), createdAt := Some (now example_env)\<rparr>]"
proof -
  let ?w = "world_with [done_task ''a'' 5]"
  let ?ts = "[(done_task ''a'' 7)\<lparr>createdAt := Some 3\<rparr>, blank_task]"
  have n: "\<not> isArray NonArray"
    by (simp add: isArray_def)
  have f: "fst (import_tasks example_env (Object NonArray) ?w) = Inl (Error ''Invalid task data'') \<and>
           snd (import_tasks example_env (Object NonArray) ?w) = ?w"
    using n import_tasks_result [of example_env "Object NonArray" ?w] by auto
  have a: "fst (import_tasks example_env (Object (TaskArray (map Some ?ts))) ?w) = Inr (length ?ts) \<and>
           collection (snd (import_tasks example_env (Object (TaskArray (map Some ?ts))) ?w)) =
             collection ?w @
             map (\<lambda>(k, t). t\<lparr> tid := StrId (generateId example_env k),
                   createdAt := Some (case createdAt t of Some c \<Rightarrow> c
                                      | None \<Rightarrow> now example_env) \<rparr>)
               (enumerate 0 ?ts)"
    using import_tasks_result [of example_env "Object (TaskArray (map Some ?ts))" ?w] by blast
  have c: "createdAt blank_task = None"
    by (simp add: blank_task_def)
  show ?thesis
    using n f a by (simp add: prod_eq_iff collection_world_with c)
qed

subsection \<open>Migration\<close>

lemma dec_nat_nonempty: "dec_nat n \<noteq> []"
  by (subst dec_nat.simps) simp

lemma String_of_int_nonempty: "String_of_int n \<noteq> []"
  by (simp add: String_of_int_def dec_nat_nonempty)

lemma generateId_nonempty: "generateId e k \<noteq> []"
  by (simp add: generateId_def)

lemma migrate_task_id:
  "\<exists>s. tid (migrate_task e k t) = StrId s \<and> s \<noteq> []"
  by (cases "tid t")
     (simp_all add: migrate_task_def truthy_id_def String_of_id_def String_of_int_nonempty
        generateId_nonempty)

lemma migrate_task_settled: "\<not> needs_migration (migrate_task e k t)"
  using migrate_task_id [of e k t]
  by (auto simp: needs_migration_def truthy_id_def is_number_def)

lemma migrated_collection:
  "list_ex needs_migration (collection w) \<Longrightarrow>
   collection (migrateOldData e w) =
     map (\<lambda>(k, t). migrate_task e k t) (enumerate 0 (collection w))"
  by (simp add: migrateOldData_def alloc_def save_def collection_def)

lemma migrateOldData_settled: "\<not> list_ex needs_migration (collection (migrateOldData e w))"
proof (cases "list_ex needs_migration (collection w)")
  case True
  then show ?thesis
    by (auto simp: migrated_collection list_ex_iff migrate_task_settled)
next
  case False
  then show ?thesis by (simp add: migrateOldData_def)
qed

text \<open>
  Claim C5, as the code has it. The migration pass runs when some record has an id that is
  missing (or reads as false) or is a number, and only then; a collection without such a
  record is left as it is. When the pass runs it rewrites every record: the record ends
  with a non-empty string id (its own id if that was a non-empty string, the decimal
  string of a non-zero numeric id, a generated id otherwise), keeps its priority or gets
  \<^verbatim>\<open>medium\<close> when it had none, keeps its \<open>createdAt\<close> or gets the current time when it
  had none; the result is stored. Running the pass again, at any later time, changes
  nothing.
\<close>

theorem migrateOldData_upgrade:
  "(\<not> list_ex needs_migration (collection w) \<longrightarrow> migrateOldData e w = w) \<and>
   (list_ex needs_migration (collection w) \<longrightarrow>
      collection (migrateOldData e w) =
        map (\<lambda>(k, t). migrate_task e k t) (enumerate 0 (collection w)) \<and>
      stored_tasks (migrateOldData e w) = collection (migrateOldData e w)) \<and>
   (\<exists>s. tid (migrate_task e k t) = StrId s \<and> s \<noteq> []) \<and>
   (\<forall>s. tid t = StrId s \<and> s \<noteq> [] \<longrightarrow> tid (migrate_task e k t) = StrId s) \<and>
   (\<forall>n. tid t = NumId n \<and> n \<noteq> 0 \<longrightarrow> tid (migrate_task e k t) = StrId (String_of_int n)) \<and>
   (\<not> truthy_id (tid t) \<longrightarrow> tid (migrate_task e k t) = StrId (generateId e k)) \<and>
   (truthy (priority t) \<longrightarrow> priority (migrate_task e k t) = priority t) \<and>
   (\<not> truthy (priority t) \<longrightarrow> priority (migrate_task e k t) = Some ''medium'') \<and>
   (createdAt t \<noteq> None \<longrightarrow> createdAt (migrate_task e k t) = createdAt t) \<and>
   (createdAt t = None \<longrightarrow> createdAt (migrate_task e k t) = Some (now e)) \<and>
   migrateOldData e' (migrateOldData e w) = migrateOldData e w"
proof -
  have idem: "migrateOldData e' (migrateOldData e w) = migrateOldData e w"
    using migrateOldData_settled [of e w] by (simp add: migrateOldData_def [of e'])
  have stored: "list_ex needs_migration (collection w) \<Longrightarrow>
      stored_tasks (migrateOldData e w) = collection (migrateOldData e w)"
    by (simp add: migrateOldData_def alloc_def save_def collection_def)
  have fields:
    "(\<forall>s. tid t = StrId s \<and> s \<noteq> [] \<longrightarrow> tid (migrate_task e k t) = StrId s) \<and>
     (\<forall>n. tid t = NumId n \<and> n \<noteq> 0 \<longrightarrow> tid (migrate_task e k t) = StrId (String_of_int n)) \<and>
     (\<not> truthy_id (tid t) \<longrightarrow> tid (migrate_task e k t) = StrId (generateId e k)) \<and>
     (truthy (priority t) \<longrightarrow> priority (migrate_task e k t) = priority t) \<and>
     (\<not> truthy (priority t) \<longrightarrow> priority (migrate_task e k t) = Some ''medium'') \<and>
     (createdAt t \<noteq> None \<longrightarrow> createdAt (migrate_task e k t) = createdAt t) \<and>
     (createdAt t = None \<longrightarrow> createdAt (migrate_task e k t) = Some (now e))"
    by (auto simp: migrate_task_def truthy_id_def String_of_id_def truthy_def or_else_def
          split: option.splits)
  show ?thesis
    using idem stored fields migrate_task_id [of e k t] migrated_collection [of w e]
    by (simp add: migrateOldData_def)
qed

text \<open>
  Claim C5 as stated fails twice. A record with a string id and no priority (and no
  \<open>createdAt\<close>) is not upgraded: the pass does not run for it. A record with the numeric
  id 7 gets the id \<^verbatim>\<open>"7"\<close>, not a fresh one.
\<close>

theorem migrateOldData_upgrade_counterexample:
  "collection (migrateOldData example_env (world_with [blank_task\<lparr>tid := StrId ''a''\<rparr>])) =
     [blank_task\<lparr>tid := StrId ''a''\<rparr>] \<and>
   priority (blank_task\<lparr>tid := StrId ''a''\<rparr>) = None \<and>
   createdAt (blank_task\<lparr>tid := StrId ''a''\<rparr>) = None \<and>
   map tid (collection (migrateOldData example_env (world_with [blank_task\<lparr>tid := NumId 7\<rparr>]))) =
     [StrId ''7'']"
proof -
  have a: "migrateOldData example_env (world_with [blank_task\<lparr>tid := StrId ''a''\<rparr>]) =
           world_with [blank_task\<lparr>tid := StrId ''a''\<rparr>]"
    by (simp add: migrateOldData_def collection_world_with needs_migration_def truthy_id_def
          is_number_def)
  have "list_ex needs_migration (collection (world_with [blank_task\<lparr>tid := NumId 7\<rparr>]))"
    by (simp add: collection_world_with needs_migration_def is_number_def)
  then have b: "collection (migrateOldData example_env (world_with [blank_task\<lparr>tid := NumId 7\<rparr>])) =
      [migrate_task example_env 0 (blank_task\<lparr>tid := NumId 7\<rparr>)]"
    by (simp add: migrated_collection collection_world_with)
  have seven: "String_of_int 7 = ''7''"
    by code_simp
  have c: "tid (migrate_task example_env 0 (blank_task\<lparr>tid := NumId 7\<rparr>)) = StrId ''7''"
    by (simp add: migrate_task_def truthy_id_def String_of_id_def seven)
  show ?thesis
    by (simp add: a b c collection_world_with) (simp add: blank_task_def)
qed

theorem migrateOldData_upgrade_witness:
  "\<not> list_ex needs_migration (collection (world_with [blank_task\<lparr>tid := StrId ''a''\<rparr>])) \<and>
   migrateOldData example_env (world_with [blank_task\<lparr>tid := StrId ''a''\<rparr>]) =
     world_with [blank_task\<lparr>tid := StrId ''a''\<rparr>] \<and>
   list_ex needs_migration (collection (world_with [blank_task\<lparr>tid := NumId 7\<rparr>])) \<and>
   collection (migrateOldData example_env (world_with [blank_task\<lparr>tid := NumId 7\<rparr>])) =
     [migrate_task example_env 0 (blank_task\<lparr>tid := NumId 7\<rparr>)] \<and>
   tid (migrate_task example_env 0
     (blank_task\<lparr>tid := StrId ''a'', priority := Some ''high'', createdAt := Some 3\<rparr>)) = StrId ''a'' \<and>
   priority (migrate_task example_env 0
     (blank_task\<lparr>tid := StrId ''a'', priority := Some ''high'', createdAt := Some 3\<rparr>)) = Some ''high'' \<and>
   createdAt (migrate_task example_env 0
     (blank_task\<lparr>tid := StrId ''a'', priority := Some ''high'', createdAt := Some 3\<rparr>)) = Some 3 \<and>
   tid (migrate_task example_env 0 (blank_task\<lparr>tid := NumId 7\<rparr>)) = StrId (String_of_int 7) \<and>
   priority (migrate_task example_env 0 (blank_task\<lparr>tid := NumId 7\<rparr>)) = Some ''medium'' \<and>
   createdAt (migrate_task example_env 0 (blank_task\<lparr>tid := NumId 7\<rparr>)) = Some (now example_env) \<and>
   tid (migrate_task example_env 0 blank_task) = StrId (generateId example_env 0)"
proof -
  let ?t1 = "blank_task\<lparr>tid := StrId ''a'', priority := Some ''high'', createdAt := Some 3\<rparr>"
  let ?t2 = "blank_task\<lparr>tid := NumId 7\<rparr>"
  let ?w1 = "world_with [blank_task\<lparr>tid := StrId ''a''\<rparr>]"
  let ?w2 = "world_with [?t2]"
  have h1: "\<not> list_ex needs_migration (collection ?w1)"
    by (simp add: collection_world_with needs_migration_def truthy_id_def is_number_def)
  have h2: "list_ex needs_migration (collection ?w2)"
    by (simp add: collection_world_with needs_migration_def is_number_def)
  have h3: "tid ?t1 = StrId ''a'' \<and> ''a'' \<noteq> [] \<and> truthy (priority ?t1) \<and> createdAt ?t1 \<noteq> None \<and>
            createdAt ?t1 = Some 3 \<and> priority ?t1 = Some ''high''"
    by (simp add: truthy_def)
  have h4: "tid ?t2 = NumId 7 \<and> (7::int) \<noteq> 0 \<and> \<not> truthy (priority ?t2) \<and> createdAt ?t2 = None"
    by (simp add: truthy_def blank_task_def)
  have h5: "\<not> truthy_id (tid blank_task)"
    by (simp add: truthy_id_def blank_task_def)
  show ?thesis
    using h1 h2 h3 h4 h5
      migrateOldData_upgrade [of ?w1 example_env 0 ?t1 example_env]
      migrateOldData_upgrade [of ?w2 example_env 0 ?t2 example_env]
      migrateOldData_upgrade [of ?w1 example_env 0 blank_task example_env]
    by (simp add: collection_world_with)
qed

subsection \<open>Filtering\<close>

lemma same_below_refl: "same_below w w"
  by (simp add: same_below_def)









lemma sortTasks_result:
  "arrays (snd (sortTasks eng r sort_by w)) (fst (sortTasks eng r sort_by w)) =
     (case comparator_of eng sort_by of
        None \<Rightarrow> arrays w r
      | Some cmp \<Rightarrow> sort_impl eng cmp (arrays w r)) \<and>
   next_ref w \<le> fst (sortTasks eng r sort_by w)"
  by (simp add: sortTasks_def comparator_of_def alloc_def sort_at_def set_array_def Let_def)




lemma mset_shift_lt: "mset (shift_lt cmp x ys) = add_mset x (mset ys)"
  by (induction ys) simp_all

lemma mset_shift_gt: "mset (shift_gt cmp x ys) = add_mset x (mset ys)"
  by (induction ys) simp_all

lemma mset_foldl_shift_lt:
  "mset (foldl (\<lambda>acc x. shift_lt cmp x acc) acc xs) = mset acc + mset xs"
  by (induction xs arbitrary: acc) (simp_all add: mset_shift_lt)

lemma mset_foldl_shift_gt:
  "mset (foldl (\<lambda>acc x. shift_gt cmp x acc) acc xs) = mset acc + mset xs"
  by (induction xs arbitrary: acc) (simp_all add: mset_shift_gt)


lemma rearranges_engine_gt: "rearranges engine_gt"
  by (simp add: rearranges_def engine_gt_def insertion_sort_gt_def mset_foldl_shift_gt)

lemma update_allocated:
  "tasks w < next_ref w \<Longrightarrow>
   tasks (snd (snd (update e i u w))) < next_ref (snd (snd (update e i u w)))"
  by (simp add: update_def Let_def set_array_def save_def updateStats_def updateDailyStats_def
        saveStats_def split: option.splits)

lemma bulkUpdate_loop_allocated:
  "tasks w < next_ref w \<Longrightarrow>
   tasks (snd (snd (bulkUpdate_loop e ids u n w))) < next_ref (snd (snd (bulkUpdate_loop e ids u n w)))"
proof (induction ids arbitrary: u n w)
  case Nil
  then show ?case by simp
next
  case (Cons i ids)
  obtain res u' w' where up: "update e i u w = (res, u', w')"
    by (cases "update e i u w")
  have "tasks w' < next_ref w'"
    using update_allocated [OF Cons.prems, of e i u] by (simp add: up)
  then show ?case
    using Cons.IH [of w'] by (cases res) (simp_all add: up)
qed

lemma import_allocated:
  "tasks w < next_ref w \<Longrightarrow>
   tasks (snd (import_tasks e d w)) < next_ref (snd (import_tasks e d w))"
  by (auto simp: import_tasks_def alloc_def save_def split: payload.splits sum.splits)

lemma step_allocated:
  assumes "tasks w < next_ref w"
  shows "tasks (step x w) < next_ref (step x w)"
proof (cases x)
  case (Import e d)
  then show ?thesis using import_allocated [OF assms, of e d] by simp
next
  case (Update e i u)
  then show ?thesis using update_allocated [OF assms, of e i u] by simp
next
  case (BulkUpdate e ids u)
  then show ?thesis
    using bulkUpdate_loop_allocated [OF assms, of e ids u 0] by (simp add: bulkUpdate_def)
qed (use assms in \<open>simp_all add: create_def delete_def clearCompleted_def bulkDelete_def
       Let_def alloc_def set_array_def save_def updateStats_def saveStats_def\<close>)

text \<open>
  In every state that the operations reach from the initial one, \<^verbatim>\<open>this.tasks\<close> is an
  array of the store.
\<close>

lemma run_allocated: "tasks w < next_ref w \<Longrightarrow> tasks (run ops w) < next_ref (run ops w)"
  by (induction ops arbitrary: w) (simp_all add: step_allocated)

lemma initial_world_allocated: "tasks initial_world < next_ref initial_world"
  by (simp add: initial_world_def)

lemma init_allocated: "tasks (init e w) < next_ref (init e w)"
  by (simp add: init_def migrateOldData_def alloc_def save_def Let_def)



subsection \<open>Sorting by deadline\<close>

lemma set_shift_lt: "set (shift_lt cmp x ys) = insert x (set ys)"
  by (induction ys) auto

lemma shift_lt_descending:
  assumes sw: "strict_weak (\<lambda>a b. cmp a b < 0)"
  shows "sorted_wrt (\<lambda>a b. \<not> cmp a b < 0) ys \<Longrightarrow>
         sorted_wrt (\<lambda>a b. \<not> cmp a b < 0) (shift_lt cmp x ys)"
proof (induction ys)
  case Nil
  show ?case by simp
next
  case (Cons y ys)
  have asym: "cmp a b < 0 \<Longrightarrow> \<not> cmp b a < 0" for a b
    using sw unfolding strict_weak_def by blast
  have negtrans: "\<not> cmp a b < 0 \<Longrightarrow> \<not> cmp b c < 0 \<Longrightarrow> \<not> cmp a c < 0" for a b c
    using sw unfolding strict_weak_def by blast
  show ?case
  proof (cases "cmp x y < 0")
    case True
    then show ?thesis
      using Cons asym [of x y] by (auto simp: set_shift_lt)
  next
    case False
    have "\<not> cmp x z < 0" if "z \<in> set ys" for z
      using Cons.prems that negtrans [OF False, of z] by auto
    then show ?thesis
      using Cons.prems False by auto
  qed
qed

lemma shift_lt_tied:
  assumes sw: "strict_weak (\<lambda>a b. cmp a b < 0)"
  shows "filter (tied (\<lambda>a b. cmp a b < 0) k) (shift_lt cmp x ys) =
         (if tied (\<lambda>a b. cmp a b < 0) k x then x # filter (tied (\<lambda>a b. cmp a b < 0) k) ys
          else filter (tied (\<lambda>a b. cmp a b < 0) k) ys)"
proof (induction ys)
  case Nil
  show ?case by simp
next
  case (Cons y ys)
  have negtrans: "\<not> cmp a b < 0 \<Longrightarrow> \<not> cmp b c < 0 \<Longrightarrow> \<not> cmp a c < 0" for a b c
    using sw unfolding strict_weak_def by blast
  have "\<not> tied (\<lambda>a b. cmp a b < 0) k y"
    if "cmp x y < 0" "tied (\<lambda>a b. cmp a b < 0) k x"
    using that negtrans [of x k y] by (auto simp: tied_def)
  then show ?case
    using Cons.IH by auto
qed

lemma foldl_shift_lt_descending:
  assumes "strict_weak (\<lambda>a b. cmp a b < 0)"
  shows "sorted_wrt (\<lambda>a b. \<not> cmp a b < 0) acc \<Longrightarrow>
         sorted_wrt (\<lambda>a b. \<not> cmp a b < 0) (foldl (\<lambda>acc x. shift_lt cmp x acc) acc xs)"
  by (induction xs arbitrary: acc) (simp_all add: shift_lt_descending [OF assms])

lemma foldl_shift_lt_tied:
  assumes "strict_weak (\<lambda>a b. cmp a b < 0)"
  shows "filter (tied (\<lambda>a b. cmp a b < 0) k) (foldl (\<lambda>acc x. shift_lt cmp x acc) acc xs) =
         rev (filter (tied (\<lambda>a b. cmp a b < 0) k) xs) @ filter (tied (\<lambda>a b. cmp a b < 0) k) acc"
  by (induction xs arbitrary: acc) (simp_all add: shift_lt_tied [OF assms])

text \<open>
  \<open>insertion_sort_lt\<close> is a stable sort whenever \<^verbatim>\<open>cmp(x, y) < 0\<close> is a strict weak
  order: no element of the result is less than one before it, and elements that are tied
  keep their order.
\<close>

lemma insertion_sort_lt_stable:
  assumes "strict_weak (\<lambda>a b. cmp a b < 0)"
  shows "sorted_wrt (\<lambda>a b. \<not> cmp b a < 0) (insertion_sort_lt cmp xs) \<and>
         filter (tied (\<lambda>a b. cmp a b < 0) k) (insertion_sort_lt cmp xs) =
           filter (tied (\<lambda>a b. cmp a b < 0) k) xs \<and>
         mset (insertion_sort_lt cmp xs) = mset xs"
proof -
  let ?acc = "foldl (\<lambda>acc x. shift_lt cmp x acc) [] xs"
  have "filter (tied (\<lambda>a b. cmp a b < 0) k) (rev ?acc) =
        rev (filter (tied (\<lambda>a b. cmp a b < 0) k) ?acc)"
    by (simp add: rev_filter)
  also have "\<dots> = rev (rev (filter (tied (\<lambda>a b. cmp a b < 0) k) xs))"
    using foldl_shift_lt_tied [OF assms, of k "[]" xs] by simp
  finally have st: "filter (tied (\<lambda>a b. cmp a b < 0) k) (rev ?acc) =
      filter (tied (\<lambda>a b. cmp a b < 0) k) xs"
    by simp
  show ?thesis
    using foldl_shift_lt_descending [OF assms, of "[]" xs] st
    by (simp add: insertion_sort_lt_def sorted_wrt_rev mset_foldl_shift_lt)
qed

lemma shift_gt_as_shift_lt: "shift_gt cmp x ys = shift_lt (\<lambda>a b. - cmp b a) x ys"
  by (induction ys) simp_all

lemma insertion_sort_gt_as_lt: "insertion_sort_gt cmp xs = insertion_sort_lt (\<lambda>a b. - cmp b a) xs"
  by (simp add: insertion_sort_gt_def insertion_sort_lt_def shift_gt_as_shift_lt)

text \<open>So is \<open>insertion_sort_gt\<close>, whenever \<^verbatim>\<open>cmp(y, x) > 0\<close> is a strict weak order.\<close>

lemma insertion_sort_gt_stable:
  assumes "strict_weak (\<lambda>a b. cmp b a > 0)"
  shows "sorted_wrt (\<lambda>a b. \<not> cmp a b > 0) (insertion_sort_gt cmp xs) \<and>
         filter (tied (\<lambda>a b. cmp b a > 0) k) (insertion_sort_gt cmp xs) =
           filter (tied (\<lambda>a b. cmp b a > 0) k) xs \<and>
         mset (insertion_sort_gt cmp xs) = mset xs"
  using insertion_sort_lt_stable [of "\<lambda>a b. - cmp b a" xs k] assms
  by (simp add: insertion_sort_gt_as_lt)

text \<open>On a comparator with \<^verbatim>\<open>cmp(y, x) > 0\<close> exactly when \<^verbatim>\<open>cmp(x, y) < 0\<close> the two agree.\<close>

lemma insertion_sorts_agree:
  assumes "\<forall>x y. cmp y x > 0 \<longleftrightarrow> cmp x y < 0"
  shows "insertion_sort_gt cmp xs = insertion_sort_lt cmp xs"
proof -
  have "shift_gt cmp x ys = shift_lt cmp x ys" for x ys
    using assms by (induction ys) simp_all
  then show ?thesis
    by (simp add: insertion_sort_gt_def insertion_sort_lt_def)
qed

text \<open>
  The deadline comparator: \<^verbatim>\<open>cmp(a, b) < 0\<close> is a strict weak order (\<open>a\<close> has a
  deadline, and \<open>b\<close> has none or a later one).
\<close>

lemma cmp_deadline_less:
  "cmp_deadline a b < 0 \<longleftrightarrow>
     (case deadline a of None \<Rightarrow> False
      | Some da \<Rightarrow> (case deadline b of None \<Rightarrow> True | Some db \<Rightarrow> da < db))"
  by (simp add: cmp_deadline_def split: option.splits)

lemma strict_weak_cmp_deadline: "strict_weak (\<lambda>a b. cmp_deadline a b < 0)"
  unfolding strict_weak_def cmp_deadline_less
  by (auto split: option.splits)

lemma sortTasks_deadline_engine_lt:
  "sorted_wrt (\<lambda>a b. case deadline b of None \<Rightarrow> True
                     | Some db \<Rightarrow> (case deadline a of None \<Rightarrow> False | Some da \<Rightarrow> da \<le> db))
     (sort_impl engine_lt cmp_deadline xs) \<and>
   filter (\<lambda>t. deadline t = d) (sort_impl engine_lt cmp_deadline xs) = filter (\<lambda>t. deadline t = d) xs \<and>
   mset (sort_impl engine_lt cmp_deadline xs) = mset xs"
proof -
  obtain k :: task where k: "deadline k = d"
    by (metis task.select_convs(6))
  have t: "tied (\<lambda>a b. cmp_deadline a b < 0) k = (\<lambda>t. deadline t = d)"
    by (auto simp: tied_def cmp_deadline_less k fun_eq_iff split: option.splits)
  have s: "(\<lambda>a b. \<not> cmp_deadline b a < 0) =
           (\<lambda>a b. case deadline b of None \<Rightarrow> True
                     | Some db \<Rightarrow> (case deadline a of None \<Rightarrow> False | Some da \<Rightarrow> da \<le> db))"
    by (auto simp: cmp_deadline_less fun_eq_iff split: option.splits)
  show ?thesis
    using insertion_sort_lt_stable [OF strict_weak_cmp_deadline, of xs k]
    by (simp add: engine_lt_def t s)
qed

lemma cmp_deadline_greater_not_strict_weak:
  "\<not> strict_weak (\<lambda>a b. cmp_deadline b a > 0)"
proof
  assume "strict_weak (\<lambda>a b. cmp_deadline b a > 0)"
  then have "\<not> cmp_deadline blank_task blank_task > 0"
    unfolding strict_weak_def by blast
  then show False
    by (simp add: cmp_deadline_def blank_task_def)
qed

text \<open>
  Claim C4 at two tasks that both lack a deadline: the comparator puts \<open>a\<close> after \<open>b\<close>
  and \<open>b\<close> after \<open>a\<close>. The sort that asks \<^verbatim>\<open>cmp(y, x) > 0\<close> returns them in the
  opposite order, the sort that asks \<^verbatim>\<open>cmp(x, y) < 0\<close> in the original order.
\<close>

theorem sortTasks_deadline_ties:
  "cmp_deadline (blank_task\<lparr>tid := StrId ''a''\<rparr>) (blank_task\<lparr>tid := StrId ''b''\<rparr>) = 1 \<and>
   cmp_deadline (blank_task\<lparr>tid := StrId ''b''\<rparr>) (blank_task\<lparr>tid := StrId ''a''\<rparr>) = 1 \<and>
   arrays (snd (sortTasks engine_gt 0 ''deadline''
            (world_with [blank_task\<lparr>tid := StrId ''a''\<rparr>, blank_task\<lparr>tid := StrId ''b''\<rparr>])))
     (fst (sortTasks engine_gt 0 ''deadline''
            (world_with [blank_task\<lparr>tid := StrId ''a''\<rparr>, blank_task\<lparr>tid := StrId ''b''\<rparr>]))) =
     [blank_task\<lparr>tid := StrId ''b''\<rparr>, blank_task\<lparr>tid := StrId ''a''\<rparr>] \<and>
   arrays (snd (sortTasks engine_lt 0 ''deadline''
            (world_with [blank_task\<lparr>tid := StrId ''a''\<rparr>, blank_task\<lparr>tid := StrId ''b''\<rparr>])))
     (fst (sortTasks engine_lt 0 ''deadline''
            (world_with [blank_task\<lparr>tid := StrId ''a''\<rparr>, blank_task\<lparr>tid := StrId ''b''\<rparr>]))) =
     [blank_task\<lparr>tid := StrId ''a''\<rparr>, blank_task\<lparr>tid := StrId ''b''\<rparr>]"
proof -
  let ?a = "blank_task\<lparr>tid := StrId ''a''\<rparr>" and ?b = "blank_task\<lparr>tid := StrId ''b''\<rparr>"
  have c: "cmp_deadline ?a ?b = 1" "cmp_deadline ?b ?a = 1"
    by (simp_all add: cmp_deadline_def blank_task_def)
  have arr: "arrays (world_with [?a, ?b]) 0 = [?a, ?b]"
    by (simp add: world_with_def set_array_def)
  have d: "comparator_of eng ''deadline'' = Some cmp_deadline" for eng
    by (simp add: comparator_of_def)
  have gt: "sort_impl engine_gt cmp_deadline [?a, ?b] = [?b, ?a]"
    by (simp add: engine_gt_def insertion_sort_gt_def c)
  have lt: "sort_impl engine_lt cmp_deadline [?a, ?b] = [?a, ?b]"
    by (simp add: engine_lt_def insertion_sort_lt_def c)
  show ?thesis
    using sortTasks_result [of engine_gt 0 "''deadline''" "world_with [?a, ?b]"]
      sortTasks_result [of engine_lt 0 "''deadline''" "world_with [?a, ?b]"]
    by (simp add: c d arr gt lt)
qed

subsection \<open>Update: id and createdAt\<close>

lemma findIndex_Some:
  "findIndex P xs = Some k \<Longrightarrow> k < length xs \<and> P (xs ! k)"
proof (induction xs arbitrary: k)
  case Nil
  then show ?case by simp
next
  case (Cons x xs)
  then show ?case
    by (cases "P x") (auto split: option.splits)
qed

lemma collection_updateStats: "collection (updateStats e a w) = collection w"
  by (simp add: updateStats_def saveStats_def collection_def)

lemma collection_updateDailyStats: "collection (updateDailyStats d x y w) = collection w"
  by (simp add: updateDailyStats_def saveStats_def collection_def Let_def)

lemma tasks_updateStats: "tasks (updateStats e a w) = tasks w"
  by (simp add: updateStats_def saveStats_def)

lemma tasks_updateDailyStats: "tasks (updateDailyStats d x y w) = tasks w"
  by (simp add: updateDailyStats_def saveStats_def Let_def)

lemma collection_save_set_array:
  "tasks w = r \<Longrightarrow> collection (save (set_array r xs w)) = xs"
  by (auto simp: save_def set_array_def collection_def)

lemma update_missing:
  "findIndex (\<lambda>t. tid t = StrId i) (collection w) = None \<Longrightarrow> update e i u w = (None, u, w)"
  by (simp add: update_def)

lemma update_found:
  assumes "findIndex (\<lambda>t. tid t = StrId i) (collection w) = Some k"
  shows "fst (snd (update e i u w)) = patch_left e (status (collection w ! k)) u"
    and "collection (snd (snd (update e i u w))) =
           (collection w)[k := spread (collection w ! k) (patch_left e (status (collection w ! k)) u)]"
    and "fst (update e i u w) =
           Some (spread (collection w ! k) (patch_left e (status (collection w ! k)) u))"
  using assms
  by (simp_all add: update_def patch_left_def Let_def collection_updateStats
        collection_updateDailyStats tasks_updateStats tasks_updateDailyStats
        collection_save_set_array)

lemma create_collection: "collection (snd (create e taskData w)) = collection w @ [new_task e taskData]"
  by (simp add: create_def Let_def collection_updateStats collection_save_set_array)

lemma delete_collection:
  "collection (snd (delete i w)) = filter (\<lambda>t. tid t \<noteq> StrId i) (collection w)"
  by (simp add: delete_def Let_def alloc_def save_def collection_def)

lemma clearCompleted_collection:
  "collection (snd (clearCompleted w)) =
     filter (\<lambda>t. status t \<noteq> Some ''completed'') (collection w)"
  by (simp add: clearCompleted_def Let_def alloc_def save_def collection_def)

lemma bulkDelete_collection:
  "collection (snd (bulkDelete ids w)) =
     filter (\<lambda>t. tid t \<notin> set (map StrId ids)) (collection w)"
  by (simp add: bulkDelete_def Let_def alloc_def save_def collection_def)

lemma id_free_patch_left: "id_free u \<Longrightarrow> id_free (patch_left e s u)"
  by (simp add: id_free_def patch_left_def)

lemma id_created_spread: "id_free u \<Longrightarrow> id_created (spread t u) = id_created t"
  by (simp add: id_free_def id_created_def spread_def over_def)

lemma update_id_created:
  assumes "id_free u"
  shows "map id_created (collection (snd (snd (update e i u w)))) = map id_created (collection w) \<and>
         id_free (fst (snd (update e i u w)))"
proof (cases "findIndex (\<lambda>t. tid t = StrId i) (collection w)")
  case None
  then show ?thesis using assms by (simp add: update_missing)
next
  case (Some k)
  have k: "k < length (collection w)"
    using findIndex_Some [OF Some] by simp
  have "map id_created ((collection w)[k := spread (collection w ! k)
            (patch_left e (status (collection w ! k)) u)]) = map id_created (collection w)"
    using k id_created_spread [OF id_free_patch_left [OF assms]]
    by (simp add: map_update list_update_same_conv)
  then show ?thesis
    using assms by (simp add: update_found [OF Some] id_free_patch_left)
qed

lemma bulkUpdate_loop_id_created:
  "id_free u \<Longrightarrow>
   map id_created (collection (snd (snd (bulkUpdate_loop e ids u n w)))) =
     map id_created (collection w) \<and>
   id_free (fst (snd (bulkUpdate_loop e ids u n w)))"
proof (induction ids arbitrary: u n w)
  case Nil
  then show ?case by simp
next
  case (Cons i ids)
  obtain res u' w' where up: "update e i u w = (res, u', w')"
    by (cases "update e i u w")
  have st: "map id_created (collection w') = map id_created (collection w)" and f: "id_free u'"
    using update_id_created [OF Cons.prems, of e i w] by (simp_all add: up)
  show ?case
    using Cons.IH [OF f, of _ w'] st
    by (cases res) (simp_all add: up)
qed

lemma kept_position_nth:
  assumes "k < length xs" and "kept_position keep xs k = Some k'"
  shows "k' < length (filter keep xs) \<and> filter keep xs ! k' = xs ! k"
proof -
  have keep: "keep (xs ! k)" and k': "k' = length (filter keep (take k xs))"
    using assms(2) by (auto simp: kept_position_def split: if_splits)
  have "xs = take k xs @ xs ! k # drop (Suc k) xs"
    using assms(1) by (simp add: id_take_nth_drop)
  then have "filter keep xs = filter keep (take k xs) @ xs ! k # filter keep (drop (Suc k) xs)"
    using keep by (metis filter.simps(2) filter_append)
  then show ?thesis
    by (simp add: k' nth_append)
qed

lemma nth_map_id_created:
  assumes "map id_created xs' = map id_created xs" and "k < length xs"
  shows "k < length xs' \<and> id_created (xs' ! k) = id_created (xs ! k)"
proof -
  have l: "length xs' = length xs"
    using assms(1) by (metis length_map)
  have "map id_created xs' ! k = map id_created xs ! k"
    using assms(1) by simp
  then show ?thesis
    using assms(2) l by simp
qed

lemma step_id_created:
  assumes "op_id_free x" and "k < length (collection w)" and "position_after x w k = Some k'"
  shows "k' < length (collection (step x w)) \<and>
         id_created (collection (step x w) ! k') = id_created (collection w ! k)"
proof (cases x)
  case (Create e taskData)
  then show ?thesis
    using assms by (simp add: create_collection nth_append)
next
  case (Update e i u)
  then show ?thesis
    using assms update_id_created [of u e i w]
      nth_map_id_created [of "collection (snd (snd (update e i u w)))" "collection w" k]
    by simp
next
  case (Delete i)
  then show ?thesis
    using assms kept_position_nth [of k "collection w" "\<lambda>t. tid t \<noteq> StrId i" k']
    by (simp add: delete_collection)
next
  case ClearCompleted
  then show ?thesis
    using assms kept_position_nth [of k "collection w" "\<lambda>t. status t \<noteq> Some ''completed''" k']
    by (simp add: clearCompleted_collection)
next
  case (BulkUpdate e ids u)
  then show ?thesis
    using assms bulkUpdate_loop_id_created [of u e ids 0 w]
      nth_map_id_created [of "collection (snd (snd (bulkUpdate e ids u w)))" "collection w" k]
    by (simp add: bulkUpdate_def)
next
  case (BulkDelete ids)
  then show ?thesis
    using assms kept_position_nth [of k "collection w" "\<lambda>t. tid t \<notin> set (map StrId ids)" k']
    by (simp add: bulkDelete_collection)
next
  case (Import e d)
  then show ?thesis
    using assms by (simp add: import_collection nth_append)
qed

lemma run_id_created:
  "\<forall>x \<in> set ops. op_id_free x \<Longrightarrow> k < length (collection w) \<Longrightarrow>
   position_after_run ops w k = Some k' \<Longrightarrow>
   k' < length (collection (run ops w)) \<and>
   id_created (collection (run ops w) ! k') = id_created (collection w ! k)"
proof (induction ops arbitrary: w k)
  case Nil
  then show ?case by simp
next
  case (Cons x ops)
  from Cons.prems(3) obtain j where j: "position_after x w k = Some j"
    and rest: "position_after_run ops (step x w) j = Some k'"
    by (auto split: option.splits)
  have s: "j < length (collection (step x w)) \<and>
           id_created (collection (step x w) ! j) = id_created (collection w ! k)"
    using step_id_created [of x k w j] Cons.prems j by simp
  have "k' < length (collection (run ops (step x w))) \<and>
        id_created (collection (run ops (step x w)) ! k') = id_created (collection (step x w) ! j)"
    using Cons.IH [where w = "step x w" and k = j] Cons.prems(1) s rest by simp
  then show ?case
    using s by simp
qed

lemma map_id_created_split:
  assumes "map id_created xs' = map id_created xs"
  shows "map tid xs' = map tid xs \<and> map createdAt xs' = map createdAt xs"
proof -
  have t: "map tid ys = map fst (map id_created ys)"
    and c: "map createdAt ys = map snd (map id_created ys)" for ys :: "task list"
    by (simp_all add: id_created_def comp_def)
  show ?thesis
    unfolding t c assms by simp
qed

text \<open>
  Claim C9, as the code has it. For a patch without the keys \<^verbatim>\<open>id\<close> and
  \<^verbatim>\<open>createdAt\<close>, \<^verbatim>\<open>update\<close> and \<^verbatim>\<open>bulkUpdate\<close> leave the id and the \<open>createdAt\<close>
  of every task of the collection as they were. Through any sequence of create, update,
  delete, clearCompleted, bulkUpdate, bulkDelete and import whose patches are of that kind,
  a task that is still in the collection has the id and the \<open>createdAt\<close> it had before
  the sequence.
\<close>

theorem update_keeps_id_createdAt:
  "(id_free u \<longrightarrow>
      map tid (collection (snd (snd (update e i u w)))) = map tid (collection w) \<and>
      map createdAt (collection (snd (snd (update e i u w)))) = map createdAt (collection w) \<and>
      map tid (collection (snd (snd (bulkUpdate e ids u w)))) = map tid (collection w) \<and>
      map createdAt (collection (snd (snd (bulkUpdate e ids u w)))) = map createdAt (collection w)) \<and>
   ((\<forall>x \<in> set ops. op_id_free x) \<and> k < length (collection w) \<and>
    position_after_run ops w k = Some k' \<longrightarrow>
      k' < length (collection (run ops w)) \<and>
      tid (collection (run ops w) ! k') = tid (collection w ! k) \<and>
      createdAt (collection (run ops w) ! k') = createdAt (collection w ! k))"
proof -
  have one: "map tid (collection (snd (snd (update e i u w)))) = map tid (collection w) \<and>
      map createdAt (collection (snd (snd (update e i u w)))) = map createdAt (collection w)"
    if "id_free u"
    using update_id_created [OF that, of e i w] map_id_created_split by blast
  have bulk: "map tid (collection (snd (snd (bulkUpdate e ids u w)))) = map tid (collection w) \<and>
      map createdAt (collection (snd (snd (bulkUpdate e ids u w)))) = map createdAt (collection w)"
    if "id_free u"
    using bulkUpdate_loop_id_created [OF that, of e ids 0 w] map_id_created_split
    unfolding bulkUpdate_def by blast
  have seq: "k' < length (collection (run ops w)) \<and>
      tid (collection (run ops w) ! k') = tid (collection w ! k) \<and>
      createdAt (collection (run ops w) ! k') = createdAt (collection w ! k)"
    if "\<forall>x \<in> set ops. op_id_free x" "k < length (collection w)"
      "position_after_run ops w k = Some k'"
    using run_id_created [OF that] by (simp add: id_created_def)
  show ?thesis
    using one bulk seq by blast
qed

text \<open>
  Claim C9 as stated, for every patch, fails: the spread \<^verbatim>\<open>{ ...task, ...updates }\<close>
  copies an \<^verbatim>\<open>id\<close> or a \<^verbatim>\<open>createdAt\<close> that the patch carries.
\<close>

theorem update_keeps_id_createdAt_counterexample:
  "map tid (collection (snd (snd (update example_env ''a'' (empty_patch\<lparr>p_id := Some (StrId ''b'')\<rparr>)
       (world_with [blank_task\<lparr>tid := StrId ''a'', createdAt := Some 1\<rparr>]))))) = [StrId ''b''] \<and>
   map createdAt (collection (snd (snd (update example_env ''a''
       (empty_patch\<lparr>p_createdAt := Some (Some 7)\<rparr>)
       (world_with [blank_task\<lparr>tid := StrId ''a'', createdAt := Some 1\<rparr>]))))) = [Some 7]"
proof -
  let ?w = "world_with [blank_task\<lparr>tid := StrId ''a'', createdAt := Some 1\<rparr>]"
  have f: "findIndex (\<lambda>t. tid t = StrId ''a'') (collection ?w) = Some 0"
    by (simp add: collection_world_with)
  show ?thesis
    unfolding update_found(2) [OF f] collection_world_with
    by (simp add: patch_left_def empty_patch_def spread_def over_def blank_task_def)
qed

theorem update_keeps_id_createdAt_witness:
  "id_free (empty_patch\<lparr>p_title := Some ''x'', p_status := Some (Some ''completed'')\<rparr>) \<and>
   list_all op_id_free [Update example_env ''a''
                  (empty_patch\<lparr>p_title := Some ''x'', p_status := Some (Some ''completed'')\<rparr>),
                Delete ''a''] \<and>
   1 < length (collection (world_with [blank_task\<lparr>tid := StrId ''a'', createdAt := Some 1\<rparr>,
                                       blank_task\<lparr>tid := StrId ''b'', createdAt := Some 2\<rparr>])) \<and>
   position_after_run
     [Update example_env ''a''
        (empty_patch\<lparr>p_title := Some ''x'', p_status := Some (Some ''completed'')\<rparr>),
      Delete ''a'']
     (world_with [blank_task\<lparr>tid := StrId ''a'', createdAt := Some 1\<rparr>,
                  blank_task\<lparr>tid := StrId ''b'', createdAt := Some 2\<rparr>]) 1 = Some 0 \<and>
   tid (collection (run
     [Update example_env ''a''
        (empty_patch\<lparr>p_title := Some ''x'', p_status := Some (Some ''completed'')\<rparr>),
      Delete ''a'']
     (world_with [blank_task\<lparr>tid := StrId ''a'', createdAt := Some 1\<rparr>,
                  blank_task\<lparr>tid := StrId ''b'', createdAt := Some 2\<rparr>])) ! 0) = StrId ''b'' \<and>
   map tid (collection (snd (snd (update example_env ''a''
       (empty_patch\<lparr>p_title := Some ''x'', p_status := Some (Some ''completed'')\<rparr>)
       (world_with [blank_task\<lparr>tid := StrId ''a'', createdAt := Some 1\<rparr>,
                    blank_task\<lparr>tid := StrId ''b'', createdAt := Some 2\<rparr>]))))) =
     [StrId ''a'', StrId ''b'']"
proof -
  let ?u = "empty_patch\<lparr>p_title := Some ''x'', p_status := Some (Some ''completed'')\<rparr>"
  let ?a = "blank_task\<lparr>tid := StrId ''a'', createdAt := Some 1\<rparr>"
  let ?b = "blank_task\<lparr>tid := StrId ''b'', createdAt := Some 2\<rparr>"
  let ?w = "world_with [?a, ?b]"
  let ?ops = "[Update example_env ''a'' ?u, Delete ''a'']"
  let ?a' = "spread ?a (patch_left example_env (status ?a) ?u)"
  have free: "id_free ?u"
    by (simp add: id_free_def empty_patch_def)
  have ops: "\<forall>x \<in> set ?ops. op_id_free x"
    using free by simp
  have len: "1 < length (collection ?w)"
    by (simp add: collection_world_with)
  have f: "findIndex (\<lambda>t. tid t = StrId ''a'') (collection ?w) = Some 0"
    by (simp add: collection_world_with)
  have cu: "collection (step (Update example_env ''a'' ?u) ?w) = [?a', ?b]"
    unfolding step.simps update_found(2) [OF f] collection_world_with by simp
  have p1: "position_after (Update example_env ''a'' ?u) ?w 1 = Some 1"
    by simp
  have p2: "position_after (Delete ''a'') (step (Update example_env ''a'' ?u) ?w) 1 = Some 0"
    unfolding position_after.simps cu
    by (simp add: kept_position_def spread_def over_def patch_left_def empty_patch_def
          blank_task_def)
  have pos: "position_after_run ?ops ?w 1 = Some 0"
    unfolding position_after_run.simps p1 option.case p2 by simp
  have goal: "k' < length (collection (run ?ops ?w)) \<and>
      tid (collection (run ?ops ?w) ! 0) = tid (collection ?w ! 1)"
    if "k' = 0" for k' :: nat
    using update_keeps_id_createdAt [of ?u example_env "''a''" ?w "[]" ?ops 1 0] ops len pos that
    by blast
  have upd: "map tid (collection (snd (snd (update example_env ''a'' ?u ?w)))) = map tid (collection ?w)"
    using update_keeps_id_createdAt [of ?u example_env "''a''" ?w "[]" ?ops 1 0] free
    by blast
  have b: "tid (collection ?w ! 1) = StrId ''b''" and m: "map tid (collection ?w) = [StrId ''a'', StrId ''b'']"
    by (simp_all add: collection_world_with)
  show ?thesis
    using free ops len pos goal [of 0] upd
    unfolding b m list_all_iff by blast
qed

subsection \<open>The invariant of completedAt\<close>

lemma patch_left_agrees: "patch_agrees u \<Longrightarrow> patch_agrees (patch_left e s u)"
  by (auto simp: patch_agrees_def patch_left_def)

lemma spread_consistent:
  "consistent t \<Longrightarrow> patch_agrees u \<Longrightarrow> consistent (spread t (patch_left e (status t) u))"
  by (auto simp: consistent_def patch_agrees_def patch_left_def spread_def over_def
        split: option.splits)

lemma update_consistent:
  assumes "\<forall>t \<in> set (collection w). consistent t" and "patch_agrees u"
  shows "(\<forall>t \<in> set (collection (snd (snd (update e i u w)))). consistent t) \<and>
         patch_agrees (fst (snd (update e i u w)))"
proof (cases "findIndex (\<lambda>t. tid t = StrId i) (collection w)")
  case None
  then show ?thesis using assms by (simp add: update_missing)
next
  case (Some k)
  have k: "k < length (collection w)"
    using findIndex_Some [OF Some] by simp
  then have old: "consistent (collection w ! k)"
    using assms(1) by simp
  have "set ((collection w)[k := spread (collection w ! k)
              (patch_left e (status (collection w ! k)) u)]) \<subseteq>
        insert (spread (collection w ! k) (patch_left e (status (collection w ! k)) u))
          (set (collection w))"
    by (rule set_update_subset_insert)
  then show ?thesis
    using assms spread_consistent [OF old assms(2), of e] patch_left_agrees [OF assms(2)]
    by (auto simp: update_found [OF Some])
qed

lemma bulkUpdate_loop_consistent:
  "\<forall>t \<in> set (collection w). consistent t \<Longrightarrow> patch_agrees u \<Longrightarrow>
   \<forall>t \<in> set (collection (snd (snd (bulkUpdate_loop e ids u n w)))). consistent t"
proof (induction ids arbitrary: u n w)
  case Nil
  then show ?case by simp
next
  case (Cons i ids)
  obtain res u' w' where up: "update e i u w = (res, u', w')"
    by (cases "update e i u w")
  have c: "\<forall>t \<in> set (collection w'). consistent t" and a: "patch_agrees u'"
    using update_consistent [OF Cons.prems, of e i] by (simp_all add: up)
  show ?case
    using Cons.IH [OF c a]
    by (cases res) (simp_all add: up)
qed

lemma new_task_consistent: "consistent (new_task e taskData)"
  by (simp add: consistent_def new_task_def)

lemma import_task_consistent: "consistent t \<Longrightarrow> consistent (import_task e k t)"
  by (simp add: consistent_def import_task_def)

lemma step_consistent:
  assumes "\<forall>t \<in> set (collection w). consistent t" and "admissible x"
  shows "\<forall>t \<in> set (collection (step x w)). consistent t"
proof (cases x)
  case (Create e taskData)
  then show ?thesis
    using assms by (simp add: create_collection new_task_consistent)
next
  case (Update e i u)
  then have "patch_agrees u"
    using assms(2) by (simp add: patch_agrees_def)
  then show ?thesis
    using update_consistent [OF assms(1), of u e i] Update by simp
next
  case (Delete i)
  then show ?thesis
    using assms by (simp add: delete_collection)
next
  case ClearCompleted
  then show ?thesis
    using assms by (simp add: clearCompleted_collection)
next
  case (BulkUpdate e ids u)
  then have "patch_agrees u"
    using assms(2) by (simp add: patch_agrees_def)
  then show ?thesis
    using bulkUpdate_loop_consistent [OF assms(1), of u e ids 0] BulkUpdate
    by (simp add: bulkUpdate_def)
next
  case (BulkDelete ids)
  then show ?thesis
    using assms by (simp add: bulkDelete_collection)
next
  case (Import e d)
  then have "\<forall>t \<in> set (payload_tasks d). consistent t"
    using assms(2) by (simp add: list_all_iff)
  then have "\<forall>t \<in> set (map (\<lambda>(k, t). import_task e k t) (enumerate 0 (payload_tasks d))). consistent t"
    by (auto simp: in_set_enumerate_eq import_task_consistent)
  then show ?thesis
    using assms(1) Import by (auto simp: import_collection)
qed

lemma run_consistent:
  "\<forall>t \<in> set (collection w). consistent t \<Longrightarrow> \<forall>x \<in> set ops. admissible x \<Longrightarrow>
   \<forall>t \<in> set (collection (run ops w)). consistent t"
proof (induction ops arbitrary: w)
  case Nil
  then show ?case by simp
next
  case (Cons x ops)
  have "\<forall>t \<in> set (collection (step x w)). consistent t"
    using step_consistent [of w x] Cons.prems by simp
  then show ?case
    using Cons.IH [of "step x w"] Cons.prems(2) by simp
qed

text \<open>
  Claim C1, as the code has it. Start from a collection in which every task has
  \<open>completedAt\<close> non-null exactly when its status is \<^verbatim>\<open>completed\<close>. After every
  sequence of create, update, delete, clearCompleted, bulkUpdate, bulkDelete and import in
  which every patch carries a status and no \<open>completedAt\<close> and every imported task has
  the property, every task of the collection has it. \<^verbatim>\<open>update\<close> with such a patch sets
  the status of the task it finds to the patch's, sets \<open>completedAt\<close> to the current time
  exactly when the status goes from another value to \<^verbatim>\<open>completed\<close>, sets it to null
  exactly when the status goes from \<^verbatim>\<open>completed\<close> to another value, and leaves it
  otherwise.
\<close>

theorem completedAt_iff_completed:
  "((\<forall>t \<in> set (collection w). consistent t) \<and> (\<forall>x \<in> set ops. admissible x) \<longrightarrow>
      (\<forall>t \<in> set (collection (run ops w)). consistent t)) \<and>
   (\<forall>k s. findIndex (\<lambda>t. tid t = StrId i) (collection w) = Some k \<and>
          p_status u = Some s \<and> p_completedAt u = None \<longrightarrow>
      status (collection (snd (snd (update e i u w))) ! k) = s \<and>
      completedAt (collection (snd (snd (update e i u w))) ! k) =
        (if s = Some ''completed'' \<and> status (collection w ! k) \<noteq> Some ''completed''
         then Some (now e)
         else if status (collection w ! k) = Some ''completed'' \<and> s \<noteq> Some ''completed''
         then None
         else completedAt (collection w ! k)))"
proof -
  have upd: "status (collection (snd (snd (update e i u w))) ! k) = s \<and>
      completedAt (collection (snd (snd (update e i u w))) ! k) =
        (if s = Some ''completed'' \<and> status (collection w ! k) \<noteq> Some ''completed''
         then Some (now e)
         else if status (collection w ! k) = Some ''completed'' \<and> s \<noteq> Some ''completed''
         then None
         else completedAt (collection w ! k))"
    if f: "findIndex (\<lambda>t. tid t = StrId i) (collection w) = Some k"
      and s: "p_status u = Some s" and c: "p_completedAt u = None" for k s
  proof -
    have k: "k < length (collection w)"
      using findIndex_Some [OF f] by simp
    show ?thesis
      using k s c by (simp add: update_found(2) [OF f] spread_def over_def patch_left_def)
  qed
  show ?thesis
    using upd run_consistent [of w ops] by blast
qed

text \<open>
  Claim C1 as stated, for any patch and any import, fails. \<^verbatim>\<open>import\<close> takes a task with
  status \<^verbatim>\<open>completed\<close> and no \<open>completedAt\<close> as it is. \<^verbatim>\<open>update\<close> with the patch
  \<^verbatim>\<open>{title: 'x'}\<close> on a completed task sets \<open>completedAt\<close> to null and leaves the status
  \<^verbatim>\<open>completed\<close>: a patch without a status is read as a status other than
  \<^verbatim>\<open>completed\<close>. \<^verbatim>\<open>update\<close> with the patch \<^verbatim>\<open>{completedAt: ...}\<close> on a pending task
  copies the \<open>completedAt\<close>.
\<close>

theorem completedAt_iff_completed_counterexample:
  "\<not> list_all consistent (collection (run
         [Import example_env (Object (TaskArray [Some (blank_task\<lparr>status := Some ''completed''\<rparr>)]))]
         initial_world)) \<and>
   list_all consistent (collection (world_with [done_task ''a'' 5])) \<and>
   \<not> list_all consistent (collection (run
         [Update example_env ''a'' (empty_patch\<lparr>p_title := Some ''x''\<rparr>)]
         (world_with [done_task ''a'' 5]))) \<and>
   list_all consistent (collection (world_with
         [blank_task\<lparr>tid := StrId ''a'', status := Some ''pending''\<rparr>])) \<and>
   \<not> list_all consistent (collection (run
         [Update example_env ''a'' (empty_patch\<lparr>p_completedAt := Some (Some 5)\<rparr>)]
         (world_with [blank_task\<lparr>tid := StrId ''a'', status := Some ''pending''\<rparr>])))"
proof -
  let ?w1 = "world_with [done_task ''a'' 5]"
  let ?w2 = "world_with [blank_task\<lparr>tid := StrId ''a'', status := Some ''pending''\<rparr>]"
  have imp: "collection (run
         [Import example_env (Object (TaskArray [Some (blank_task\<lparr>status := Some ''completed''\<rparr>)]))]
         initial_world) =
       [import_task example_env 0 (blank_task\<lparr>status := Some ''completed''\<rparr>)]"
    unfolding run.simps step.simps import_collection
    by (simp add: payload_tasks_def collection_def initial_world_def)
  have f1: "findIndex (\<lambda>t. tid t = StrId ''a'') (collection ?w1) = Some 0"
    by (simp add: collection_world_with done_task_def)
  have f2: "findIndex (\<lambda>t. tid t = StrId ''a'') (collection ?w2) = Some 0"
    by (simp add: collection_world_with)
  have u1: "collection (run [Update example_env ''a'' (empty_patch\<lparr>p_title := Some ''x''\<rparr>)] ?w1) =
      [spread (done_task ''a'' 5)
         (patch_left example_env (status (done_task ''a'' 5)) (empty_patch\<lparr>p_title := Some ''x''\<rparr>))]"
    unfolding run.simps step.simps update_found(2) [OF f1] collection_world_with by simp
  have u2: "collection (run
         [Update example_env ''a'' (empty_patch\<lparr>p_completedAt := Some (Some 5)\<rparr>)] ?w2) =
      [spread (blank_task\<lparr>tid := StrId ''a'', status := Some ''pending''\<rparr>)
         (patch_left example_env (status (blank_task\<lparr>tid := StrId ''a'', status := Some ''pending''\<rparr>))
            (empty_patch\<lparr>p_completedAt := Some (Some 5)\<rparr>))]"
    unfolding run.simps step.simps update_found(2) [OF f2] collection_world_with by simp
  show ?thesis
    unfolding imp u1 u2 collection_world_with
    by (simp add: consistent_def import_task_def blank_task_def done_task_def spread_def over_def
          patch_left_def empty_patch_def)
qed

theorem completedAt_iff_completed_witness:
  "list_all consistent (collection (world_with [done_task ''a'' 5])) \<and>
   list_all admissible [Update example_env ''a'' (empty_patch\<lparr>p_status := Some (Some ''pending'')\<rparr>),
                Import example_env (Object (TaskArray [Some (done_task ''z'' 9)])),
                Create example_env example_taskData,
                ClearCompleted] \<and>
   list_all consistent (collection (run
        [Update example_env ''a'' (empty_patch\<lparr>p_status := Some (Some ''pending'')\<rparr>),
         Import example_env (Object (TaskArray [Some (done_task ''z'' 9)])),
         Create example_env example_taskData,
         ClearCompleted]
        (world_with [done_task ''a'' 5]))) \<and>
   findIndex (\<lambda>t. tid t = StrId ''a'') (collection (world_with [done_task ''a'' 5])) = Some 0 \<and>
   status (collection (snd (snd (update example_env ''a''
        (empty_patch\<lparr>p_status := Some (Some ''pending'')\<rparr>) (world_with [done_task ''a'' 5])))) ! 0) =
     Some ''pending'' \<and>
   completedAt (collection (snd (snd (update example_env ''a''
        (empty_patch\<lparr>p_status := Some (Some ''pending'')\<rparr>) (world_with [done_task ''a'' 5])))) ! 0) =
     None"
proof -
  let ?w = "world_with [done_task ''a'' 5]"
  let ?u = "empty_patch\<lparr>p_status := Some (Some ''pending'')\<rparr>"
  let ?ops = "[Update example_env ''a'' ?u, Import example_env (Object (TaskArray [Some (done_task ''z'' 9)])),
               Create example_env example_taskData, ClearCompleted]"
  have c: "\<forall>t \<in> set (collection ?w). consistent t"
    by (simp add: collection_world_with consistent_def done_task_def)
  have a: "\<forall>x \<in> set ?ops. admissible x"
    by (simp add: empty_patch_def payload_tasks_def consistent_def done_task_def)
  have f: "findIndex (\<lambda>t. tid t = StrId ''a'') (collection ?w) = Some 0"
    by (simp add: collection_world_with done_task_def)
  have u: "p_status ?u = Some (Some ''pending'') \<and> p_completedAt ?u = None"
    by (simp add: empty_patch_def)
  have old: "status (collection ?w ! 0) = Some ''completed''"
    by (simp add: collection_world_with done_task_def)
  have run: "\<forall>t \<in> set (collection (run ?ops ?w)). consistent t"
    using completedAt_iff_completed [of ?w ?ops "''a''" ?u example_env] c a by blast
  have upd: "status (collection (snd (snd (update example_env ''a'' ?u ?w))) ! 0) = Some ''pending'' \<and>
      completedAt (collection (snd (snd (update example_env ''a'' ?u ?w))) ! 0) = None"
    using completedAt_iff_completed [of ?w ?ops "''a''" ?u example_env] f u old
    by (auto dest!: spec [where x = 0])
  show ?thesis
    unfolding list_all_iff using c a f run upd by blast
qed

end
